theory Spec2Isabelle
  imports Complex_Main "HOL-Library.Word"
begin

section \<open>Data model\<close>

text \<open>
  The pipeline of \<^verbatim>\<open>etl_tasks.py\<close> works on pandas DataFrames and on a PostgreSQL
  database. A DataFrame is modelled column by column, as pandas stores it: every column
  (Series) has one dtype, and the dtype fixes what its cells can hold.
  \<^item> \<open>int64\<close>: 64-bit integers, never null (arithmetic wraps, as numpy's does);
  \<^item> \<open>float64\<close>: a number or NaN (\<open>None\<close>). Floats are rationals here: infinities and
    rounding are not represented, and every floating-point operation whose rounding
    could matter is a parameter of the model (record \<open>lib\<close> below);
  \<^item> \<open>bool\<close>: never null;
  \<^item> \<open>datetime64[ns]\<close>: nanoseconds since the epoch, or NaT (\<open>None\<close>);
  \<^item> \<open>object\<close>: a text string or \<open>None\<close>, which is what \<^verbatim>\<open>read_csv\<close> produces for a
    non-numeric column (object columns that mix other Python objects are outside the model).
  The row labels of the frame (its index) are kept, since \<^verbatim>\<open>dropna\<close> leaves gaps in them
  and \<^verbatim>\<open>reset_index(drop=True)\<close> closes the gaps.
\<close>

datatype series =
    IntCol "64 word list"
  | FloatCol "rat option list"
  | BoolCol "bool list"
  | DtCol "64 word option list"
  | ObjCol "string option list"

datatype dtype = Int64 | Float64 | BoolD | Datetime64 | ObjectD

fun dtype_of :: "series \<Rightarrow> dtype" where
  "dtype_of (IntCol _) = Int64"
| "dtype_of (FloatCol _) = Float64"
| "dtype_of (BoolCol _) = BoolD"
| "dtype_of (DtCol _) = Datetime64"
| "dtype_of (ObjCol _) = ObjectD"

text \<open>A single value, as a row of the frame or of a database table holds it.\<close>

datatype cell = Null | IntV "64 word" | FloatV rat | BoolV bool | StrV string | TsV "64 word"

definition opt_cell :: "('a \<Rightarrow> cell) \<Rightarrow> 'a option \<Rightarrow> cell" where
  "opt_cell f x = (case x of None \<Rightarrow> Null | Some v \<Rightarrow> f v)"

fun cells :: "series \<Rightarrow> cell list" where
  "cells (IntCol xs) = map IntV xs"
| "cells (FloatCol xs) = map (opt_cell FloatV) xs"
| "cells (BoolCol xs) = map BoolV xs"
| "cells (DtCol xs) = map (opt_cell TsV) xs"
| "cells (ObjCol xs) = map (opt_cell StrV) xs"

definition series_len :: "series \<Rightarrow> nat" where
  "series_len s = length (cells s)"

record dataframe =
  df_columns :: "(string \<times> series) list"
  df_index :: "nat list"

definition colnames :: "dataframe \<Rightarrow> string list" where
  "colnames df = map fst (df_columns df)"

definition df_len :: "dataframe \<Rightarrow> nat" where
  "df_len df = length (df_index df)"

text \<open>
  \<^verbatim>\<open>df[name]\<close>. The frames of the model have pairwise distinct column names (what pandas
  does with duplicate labels is not modelled): \<open>wf_df\<close> says so, and that every column
  is as long as the index.
\<close>

definition get_col :: "dataframe \<Rightarrow> string \<Rightarrow> series option" where
  "get_col df name = map_of (df_columns df) name"

definition wf_df :: "dataframe \<Rightarrow> bool" where
  "wf_df df = (distinct (colnames df) \<and>
     list_all (\<lambda>(n, s). series_len s = df_len df) (df_columns df))"

text \<open>
  \<^verbatim>\<open>df[name] = s\<close>: an existing column is replaced where it stands, a new one is appended.
\<close>

definition set_col :: "dataframe \<Rightarrow> string \<Rightarrow> series \<Rightarrow> dataframe" where
  "set_col df name s =
     (if name \<in> set (colnames df)
      then df\<lparr>df_columns := map (\<lambda>(n, old). if n = name then (n, s) else (n, old)) (df_columns df)\<rparr>
      else df\<lparr>df_columns := df_columns df @ [(name, s)]\<rparr>)"

subsection \<open>Library behaviour taken as a parameter\<close>

text \<open>
  What pandas, numpy and the PostgreSQL server compute on a single value is not code of the
  repository. It enters the model as a record of functions, and every theorem holds for
  every such record:
  \<^item> \<open>str_to_num\<close>: the number \<^verbatim>\<open>pd.to_numeric\<close> reads from a string, if any;
  \<^item> \<open>to_datetime_val\<close>: the timestamp \<^verbatim>\<open>pd.to_datetime(..., errors="coerce")\<close> gives a
    cell of a column (the whole column is passed too: pandas may pick the format from it);
  \<^item> \<open>ts_date_iso\<close>: \<^verbatim>\<open>val.date().isoformat()\<close>, \<open>None\<close> when it raises; \<open>ts_str\<close>: \<^verbatim>\<open>str(val)\<close>;
  \<^item> \<open>i2f\<close>, \<open>fmul\<close>: conversion of an int64 to float64 and float64 multiplication;
  \<^item> \<open>pg_date_in\<close>: the date PostgreSQL reads from a text value (\<^verbatim>\<open>"c"::date\<close>), if any.
\<close>

datatype pynum = NInt "64 word" | NFloat rat

record lib =
  str_to_num :: "string \<Rightarrow> pynum option"
  to_datetime_val :: "cell list \<Rightarrow> cell \<Rightarrow> 64 word option"
  ts_date_iso :: "64 word \<Rightarrow> string option"
  ts_str :: "64 word \<Rightarrow> string"
  i2f :: "64 word \<Rightarrow> rat"
  fmul :: "rat \<Rightarrow> rat \<Rightarrow> rat"
  pg_date_in :: "string \<Rightarrow> 64 word option"

section \<open>Configuration\<close>

text \<open>The environment variables of the module, at their defaults.\<close>

definition TARGET_TABLE :: string where
  "TARGET_TABLE = ''orders_clean''"

definition UNIQUE_KEY :: string where
  "UNIQUE_KEY = ''order_id''"

section \<open>Transform\<close>

text \<open>
  \<^verbatim>\<open>c.strip().lower()\<close> on ASCII text: \<^verbatim>\<open>strip\<close> removes the characters for which
  \<^verbatim>\<open>str.isspace\<close> holds (codes 9 to 13 and 28 to 32) from both ends, and \<^verbatim>\<open>lower\<close>
  adds 32 to the code of a capital letter (it sets the bit of value 32).
\<close>

definition is_space :: "char \<Rightarrow> bool" where
  "is_space c = (let n = (of_char c :: nat) in (9 \<le> n \<and> n \<le> 13) \<or> (28 \<le> n \<and> n \<le> 32))"

definition strip :: "string \<Rightarrow> string" where
  "strip s = rev (dropWhile is_space (rev (dropWhile is_space s)))"

definition char_lower :: "char \<Rightarrow> char" where
  "char_lower c =
     (let n = (of_char c :: nat)
      in if 65 \<le> n \<and> n \<le> 90
         then (case c of Char b0 b1 b2 b3 b4 b5 b6 b7 \<Rightarrow> Char b0 b1 b2 b3 b4 True b6 b7)
         else c)"

definition lower :: "string \<Rightarrow> string" where
  "lower s = map char_lower s"

definition rename_columns :: "(string \<Rightarrow> string) \<Rightarrow> dataframe \<Rightarrow> dataframe" where
  "rename_columns f df = df\<lparr>df_columns := map (\<lambda>(n, s). (f n, s)) (df_columns df)\<rparr>"

text \<open>
  \<^verbatim>\<open>pd.to_datetime(series, errors="coerce")\<close>: a datetime64 column of the same length,
  NaT where a value cannot be read.
\<close>

definition to_datetime :: "lib \<Rightarrow> series \<Rightarrow> 64 word option list" where
  "to_datetime L s = map (to_datetime_val L (cells s)) (cells s)"

text \<open>The inner function \<^verbatim>\<open>to_iso_date\<close> of the source, with its \<^verbatim>\<open>try\<close>/\<^verbatim>\<open>except\<close>.\<close>

definition to_iso_date :: "lib \<Rightarrow> 64 word option \<Rightarrow> string option" where
  "to_iso_date L val =
     (case val of
        None \<Rightarrow> None
      | Some t \<Rightarrow> (case ts_date_iso L t of Some s \<Rightarrow> Some s | None \<Rightarrow> Some (ts_str L t)))"

text \<open>
  \<^verbatim>\<open>Series.apply(to_iso_date)\<close> on a datetime64 column. On an empty column pandas does not
  call the function and returns an empty column of the same dtype; otherwise the results
  (strings and \<^verbatim>\<open>None\<close>) make an object column.
\<close>

definition apply_to_iso_date :: "lib \<Rightarrow> 64 word option list \<Rightarrow> series" where
  "apply_to_iso_date L xs = (if xs = [] then DtCol [] else ObjCol (map (to_iso_date L) xs))"

text \<open>
  \<^verbatim>\<open>pd.to_numeric(series, errors="coerce")\<close>. The result is always a numeric column: a
  numeric column is returned as it is, a datetime column is read as its int64 nanoseconds
  (NaT is the least int64), and in an object column every string is parsed on its own: the
  result is int64 when every entry is an integer, float64 (NaN for what is missing or does
  not parse) otherwise.
\<close>

datatype numeric = NumInt "64 word list" | NumFloat "rat option list" | NumBool "bool list"

fun series_of_numeric :: "numeric \<Rightarrow> series" where
  "series_of_numeric (NumInt xs) = IntCol xs"
| "series_of_numeric (NumFloat xs) = FloatCol xs"
| "series_of_numeric (NumBool xs) = BoolCol xs"

definition parse_obj :: "lib \<Rightarrow> string option \<Rightarrow> pynum option" where
  "parse_obj L x = (case x of None \<Rightarrow> None | Some s \<Rightarrow> str_to_num L s)"

fun is_int_num :: "pynum option \<Rightarrow> bool" where
  "is_int_num (Some (NInt _)) = True"
| "is_int_num _ = False"

fun int_of_num :: "pynum option \<Rightarrow> 64 word" where
  "int_of_num (Some (NInt i)) = i"
| "int_of_num _ = 0"

fun float_of_num :: "lib \<Rightarrow> pynum option \<Rightarrow> rat option" where
  "float_of_num L None = None"
| "float_of_num L (Some (NInt i)) = Some (i2f L i)"
| "float_of_num L (Some (NFloat r)) = Some r"

definition INT64_MIN :: "64 word" where
  "INT64_MIN = word_of_int (- (2 ^ 63))"

fun to_numeric :: "lib \<Rightarrow> series \<Rightarrow> numeric" where
  "to_numeric L (IntCol xs) = NumInt xs"
| "to_numeric L (FloatCol xs) = NumFloat xs"
| "to_numeric L (BoolCol xs) = NumBool xs"
| "to_numeric L (DtCol xs) = NumInt (map (\<lambda>x. case x of None \<Rightarrow> INT64_MIN | Some t \<Rightarrow> t) xs)"
| "to_numeric L (ObjCol xs) =
     (let ps = map (parse_obj L) xs
      in if list_all is_int_num ps then NumInt (map int_of_num ps)
         else NumFloat (map (float_of_num L) ps))"

text \<open>\<^verbatim>\<open>.fillna(0)\<close> and \<^verbatim>\<open>.fillna(0.0)\<close>: only a float column has NaN to fill.\<close>

fun fillna_zero :: "numeric \<Rightarrow> numeric" where
  "fillna_zero (NumFloat xs) = NumFloat (map (\<lambda>x. case x of None \<Rightarrow> Some 0 | Some r \<Rightarrow> Some r) xs)"
| "fillna_zero n = n"

text \<open>
  \<^verbatim>\<open>.astype(int)\<close>: a float is truncated towards zero (a C cast; for a magnitude of
  \<open>2^63\<close> or more the cast is undefined, and the model wraps). A NaN cannot be cast (pandas
  raises); after \<^verbatim>\<open>fillna(0)\<close> there is none, and \<open>astype_int\<close> is only used there.
\<close>

definition trunc_rat :: "rat \<Rightarrow> int" where
  "trunc_rat r = (if 0 \<le> r then \<lfloor>r\<rfloor> else \<lceil>r\<rceil>)"

definition f2i :: "rat \<Rightarrow> 64 word" where
  "f2i r = word_of_int (trunc_rat r)"

fun astype_int :: "numeric \<Rightarrow> 64 word list" where
  "astype_int (NumInt xs) = xs"
| "astype_int (NumFloat xs) = map (\<lambda>x. case x of None \<Rightarrow> 0 | Some r \<Rightarrow> f2i r) xs"
| "astype_int (NumBool xs) = map (\<lambda>b. if b then 1 else 0) xs"

text \<open>
  \<^verbatim>\<open>df["quantity"] * df["price"]\<close>, the left column being int64: int64 times int64 or bool
  is int64 (wrapping), int64 times float64 is float64.
\<close>

fun mul_int_numeric :: "lib \<Rightarrow> 64 word list \<Rightarrow> numeric \<Rightarrow> numeric" where
  "mul_int_numeric L qs (NumInt ps) = NumInt (map2 (\<lambda>q p. q * p) qs ps)"
| "mul_int_numeric L qs (NumFloat ps) =
     NumFloat (map2 (\<lambda>q p. map_option (fmul L (i2f L q)) p) qs ps)"
| "mul_int_numeric L qs (NumBool ps) = NumInt (map2 (\<lambda>q b. if b then q else 0) qs ps)"

text \<open>\<^verbatim>\<open>df.dropna(subset=[key])\<close>: the rows whose key cell is null go, labels included.\<close>

definition filter_mask :: "bool list \<Rightarrow> 'a list \<Rightarrow> 'a list" where
  "filter_mask m xs = map snd (filter fst (zip m xs))"

fun filter_series :: "bool list \<Rightarrow> series \<Rightarrow> series" where
  "filter_series m (IntCol xs) = IntCol (filter_mask m xs)"
| "filter_series m (FloatCol xs) = FloatCol (filter_mask m xs)"
| "filter_series m (BoolCol xs) = BoolCol (filter_mask m xs)"
| "filter_series m (DtCol xs) = DtCol (filter_mask m xs)"
| "filter_series m (ObjCol xs) = ObjCol (filter_mask m xs)"

definition notna :: "series \<Rightarrow> bool list" where
  "notna s = map (\<lambda>c. c \<noteq> Null) (cells s)"

definition dropna_subset :: "dataframe \<Rightarrow> string \<Rightarrow> dataframe" where
  "dropna_subset df key =
     (case get_col df key of
        None \<Rightarrow> df
      | Some k \<Rightarrow>
          \<lparr>df_columns = map (\<lambda>(n, s). (n, filter_series (notna k) s)) (df_columns df),
           df_index = filter_mask (notna k) (df_index df)\<rparr>)"

definition reset_index :: "dataframe \<Rightarrow> dataframe" where
  "reset_index df = df\<lparr>df_index := [0 ..< df_len df]\<rparr>"

text \<open>The three conditional steps of \<^verbatim>\<open>transform_orders_df\<close>, in the order of the source.\<close>

definition normalize_name :: "string \<Rightarrow> string" where
  "normalize_name c = lower (strip c)"

definition parse_order_date :: "lib \<Rightarrow> dataframe \<Rightarrow> dataframe" where
  "parse_order_date L df =
     (case get_col df ''order_date'' of
        None \<Rightarrow> df
      | Some s \<Rightarrow>
          (let df1 = set_col df ''order_date'' (DtCol (to_datetime L s))
           in set_col df1 ''order_date'' (apply_to_iso_date L (to_datetime L s))))"

definition derive_total :: "lib \<Rightarrow> dataframe \<Rightarrow> dataframe" where
  "derive_total L df =
     (case (get_col df ''quantity'', get_col df ''price'') of
        (Some q, Some p) \<Rightarrow>
          (let qs = astype_int (fillna_zero (to_numeric L q));
               df1 = set_col df ''quantity'' (IntCol qs);
               pn = fillna_zero (to_numeric L p);
               df2 = set_col df1 ''price'' (series_of_numeric pn)
           in set_col df2 ''total_price'' (series_of_numeric (mul_int_numeric L qs pn)))
      | _ \<Rightarrow> df)"

definition transform_orders_df :: "lib \<Rightarrow> dataframe \<Rightarrow> dataframe" where
  "transform_orders_df L df =
     (let df1 = rename_columns normalize_name df;
          df2 = parse_order_date L df1;
          df3 = derive_total L df2;
          df4 = (if UNIQUE_KEY \<in> set (colnames df3) then dropna_subset df3 UNIQUE_KEY else df3)
      in reset_index df4)"

text \<open>
  The frame \<^verbatim>\<open>transform_orders_df\<close> has before it drops the records without a key.
\<close>

definition derived_frame :: "lib \<Rightarrow> dataframe \<Rightarrow> dataframe" where
  "derived_frame L df = derive_total L (parse_order_date L (rename_columns normalize_name df))"

text \<open>
  What the drop of the records without a key leaves of a column of that frame.
\<close>

definition keep_keyed :: "lib \<Rightarrow> dataframe \<Rightarrow> series \<Rightarrow> series" where
  "keep_keyed L df s =
     (case get_col (derived_frame L df) UNIQUE_KEY of
        None \<Rightarrow> s
      | Some k \<Rightarrow> filter_series (notna k) s)"

section \<open>Quality gate\<close>

definition REQUIRED_COLUMNS :: "string list" where
  "REQUIRED_COLUMNS = [''order_id'', ''user_id'', ''product_id'', ''quantity'', ''price'', ''order_date'']"

text \<open>
  The three messages of \<^verbatim>\<open>basic_data_quality_checks\<close>: "Missing required columns: ..."
  (with the list of the missing names), "No rows in dataset after download/transform." and
  "Duplicate values found in UNIQUE_KEY column.".
\<close>

datatype dq_issue = MissingRequired "string list" | NoRows | DuplicateKey

text \<open>\<^verbatim>\<open>series.duplicated().any()\<close>: some value repeats an earlier one (nulls count as equal).\<close>

definition duplicated_any :: "series \<Rightarrow> bool" where
  "duplicated_any s = (\<not> distinct (cells s))"

definition basic_data_quality_checks :: "dataframe \<Rightarrow> string list \<Rightarrow> dq_issue list" where
  "basic_data_quality_checks df required_columns =
     (let miss = filter (\<lambda>c. c \<notin> set (colnames df)) required_columns;
          msgs1 = (if miss \<noteq> [] then [MissingRequired miss] else []);
          msgs2 = (if df_len df = 0 then msgs1 @ [NoRows] else msgs1);
          msgs3 = (case get_col df UNIQUE_KEY of
                     Some k \<Rightarrow> if duplicated_any k then msgs2 @ [DuplicateKey] else msgs2
                   | None \<Rightarrow> msgs2)
      in msgs3)"

section \<open>Type inference for table creation\<close>

datatype sqltype = Integer | Float | Boolean | Date | Text

datatype column = Column string sqltype

definition is_integer_dtype :: "series \<Rightarrow> bool" where
  "is_integer_dtype s = (dtype_of s = Int64)"

definition is_float_dtype :: "series \<Rightarrow> bool" where
  "is_float_dtype s = (dtype_of s = Float64)"

definition is_bool_dtype :: "series \<Rightarrow> bool" where
  "is_bool_dtype s = (dtype_of s = BoolD)"

definition is_datetime64_any_dtype :: "series \<Rightarrow> bool" where
  "is_datetime64_any_dtype s = (dtype_of s = Datetime64)"

definition pandas_dtype_to_sqlalchemy :: "string \<Rightarrow> series \<Rightarrow> column" where
  "pandas_dtype_to_sqlalchemy col_name s =
     (if is_integer_dtype s then Column col_name Integer
      else if is_float_dtype s then Column col_name Float
      else if is_bool_dtype s then Column col_name Boolean
      else if is_datetime64_any_dtype s then Column col_name Date
      else Column col_name Text)"

section \<open>The database\<close>

text \<open>
  The PostgreSQL database is an explicit state: a map from relation names to tables. A
  table has typed columns, the columns that carry a unique constraint or primary key, and
  its rows; a row gives every column of its table a value. What the server does is
  modelled as far as the statements of \<^verbatim>\<open>etl_tasks.py\<close> need it:
  \<^item> a value is stored as it is handed over (no conversion between the column types of the
    staging relation and of the sink);
  \<^item> a statement can also fail for a reason outside the model (connection, permissions,
    a value the server rejects): the record \<open>faults\<close> says which statements of a run do,
    and every theorem holds for every such record;
  \<^item> a failed statement or transaction leaves the database as it was.
\<close>

type_synonym row = "(string \<times> cell) list"

record table =
  tcols :: "(string \<times> sqltype) list"
  tunique :: "string list"
  trows :: "row list"

type_synonym db = "string \<Rightarrow> table option"

datatype db_stmt =
  CreateTarget | DropStaging | CreateStaging | CopyFrom | AlterDate | SelectSample | Upsert | DropFinal

text \<open>
  The exceptions of the module. \<open>RuntimeError c e vs\<close> is the \<^verbatim>\<open>RuntimeError\<close> of
  \<^verbatim>\<open>attempt_cast_date_columns\<close>: its message is formatted from the column name \<open>c\<close>, the
  error \<open>e\<close> it was raised from, and the sample values \<open>vs\<close>.
\<close>

datatype error =
    ExtractError
  | FileNotFoundError
  | ValueError string
  | SQLError db_stmt
  | RuntimeError string error "cell list"

record faults =
  fail_create_target :: bool
  fail_drop_staging :: bool
  fail_create_staging :: bool
  fail_copy :: bool
  fail_alter :: "string \<Rightarrow> bool"
  fail_upsert :: bool
  fail_drop_final :: bool

definition row_get :: "row \<Rightarrow> string \<Rightarrow> cell" where
  "row_get r c = (case map_of r c of Some v \<Rightarrow> v | None \<Rightarrow> Null)"

definition column_values :: "table \<Rightarrow> string \<Rightarrow> cell list" where
  "column_values t c = map (\<lambda>r. row_get r c) (trows t)"

text \<open>
  The records of a frame, \<^verbatim>\<open>df.to_dict(orient="records")\<close>, which are also the lines that
  \<^verbatim>\<open>df.to_csv\<close> writes. (For a frame that is not \<open>wf_df\<close> the model says nothing useful.)
\<close>

definition df_rows :: "dataframe \<Rightarrow> row list" where
  "df_rows df = map (\<lambda>i. map (\<lambda>(n, s). (n, cells s ! i)) (df_columns df)) [0 ..< df_len df]"

text \<open>\<^verbatim>\<open>df.head(n)\<close>.\<close>

definition df_head :: "dataframe \<Rightarrow> nat \<Rightarrow> dataframe" where
  "df_head df n =
     \<lparr>df_columns = map (\<lambda>(c, s). (c, filter_series (replicate n True) s)) (df_columns df),
      df_index = take n (df_index df)\<rparr>"

fun column_spec :: "column \<Rightarrow> string \<times> sqltype" where
  "column_spec (Column n ty) = (n, ty)"

definition inferred_columns :: "dataframe \<Rightarrow> (string \<times> sqltype) list" where
  "inferred_columns df = map (\<lambda>(n, s). column_spec (pandas_dtype_to_sqlalchemy n s)) (df_columns df)"

text \<open>
  \<^verbatim>\<open>metadata.create_all(engine, tables=[table])\<close> creates the table unless it exists. The
  columns are plain \<^verbatim>\<open>Column(name, type)\<close>: the new table has no unique constraint.
\<close>

definition create_table_if_not_exists ::
    "faults \<Rightarrow> string \<Rightarrow> dataframe \<Rightarrow> db \<Rightarrow> (error + unit) \<times> db" where
  "create_table_if_not_exists F table_name df db =
     (if fail_create_target F then (Inl (SQLError CreateTarget), db)
      else (case db table_name of
              Some t \<Rightarrow> (Inr (), db)
            | None \<Rightarrow>
                (Inr (), db(table_name \<mapsto> \<lparr>tcols = inferred_columns df, tunique = [], trows = []\<rparr>))))"

text \<open>\<^verbatim>\<open>DROP TABLE IF EXISTS\<close> in a transaction of its own, then \<^verbatim>\<open>staging.create(engine)\<close>.\<close>

definition create_staging_table ::
    "faults \<Rightarrow> string \<Rightarrow> dataframe \<Rightarrow> db \<Rightarrow> (error + unit) \<times> db" where
  "create_staging_table F staging_name df db =
     (if fail_drop_staging F then (Inl (SQLError DropStaging), db)
      else (let db1 = db(staging_name := None)
            in if fail_create_staging F then (Inl (SQLError CreateStaging), db1)
               else (Inr (),
                     db1(staging_name \<mapsto> \<lparr>tcols = inferred_columns df, tunique = [], trows = []\<rparr>))))"

text \<open>
  \<^verbatim>\<open>COPY ... FROM STDIN WITH (FORMAT csv, HEADER true)\<close>: the header line is skipped and
  the values of a line go to the table's columns by position. The statement fails when the
  table is missing, when a line has not as many values as the table has columns, or when a
  unique constraint of the table is violated; the source rolls back and raises again.
\<close>

definition unique_ok :: "string list \<Rightarrow> row list \<Rightarrow> bool" where
  "unique_ok us rs =
     list_all (\<lambda>u. distinct (filter (\<lambda>v. v \<noteq> Null) (map (\<lambda>r. row_get r u) rs))) us"

definition copy_df_to_table_via_copy ::
    "faults \<Rightarrow> dataframe \<Rightarrow> string \<Rightarrow> db \<Rightarrow> (error + unit) \<times> db" where
  "copy_df_to_table_via_copy F df table_name db =
     (case db table_name of
        None \<Rightarrow> (Inl (SQLError CopyFrom), db)
      | Some t \<Rightarrow>
          (let new_rows = map (\<lambda>r. zip (map fst (tcols t)) (map snd r)) (df_rows df)
           in if fail_copy F
                 \<or> (df_rows df \<noteq> [] \<and> length (tcols t) \<noteq> length (df_columns df))
                 \<or> \<not> unique_ok (tunique t) (trows t @ new_rows)
              then (Inl (SQLError CopyFrom), db)
              else (Inr (), db(table_name \<mapsto> t\<lparr>trows := trows t @ new_rows\<rparr>))))"


subsection \<open>Date reconciliation\<close>

fun contains_sub :: "string \<Rightarrow> string \<Rightarrow> bool" where
  "contains_sub p [] = (p = [])"
| "contains_sub p (c # cs) = (take (length p) (c # cs) = p \<or> contains_sub p cs)"

definition is_date_col :: "string \<Rightarrow> bool" where
  "is_date_col c = contains_sub ''date'' (lower c)"

text \<open>
  \<^verbatim>\<open>ALTER TABLE t ALTER COLUMN c TYPE date USING (c::date)\<close>. Only a text or a date column
  can be cast to date, and every text value of the column has to read as a date.
\<close>

definition castable_to_date :: "sqltype \<Rightarrow> bool" where
  "castable_to_date ty = (ty = Text \<or> ty = Date)"

fun cast_date :: "lib \<Rightarrow> cell \<Rightarrow> cell option" where
  "cast_date L Null = Some Null"
| "cast_date L (StrV s) = map_option TsV (pg_date_in L s)"
| "cast_date L (TsV d) = Some (TsV d)"
| "cast_date L _ = None"

definition cast_or_keep :: "lib \<Rightarrow> cell \<Rightarrow> cell" where
  "cast_or_keep L v = (case cast_date L v of Some d \<Rightarrow> d | None \<Rightarrow> v)"

definition alter_column_date ::
    "lib \<Rightarrow> faults \<Rightarrow> string \<Rightarrow> string \<Rightarrow> db \<Rightarrow> (error + unit) \<times> db" where
  "alter_column_date L F tbl c db =
     (case db tbl of
        None \<Rightarrow> (Inl (SQLError AlterDate), db)
      | Some t \<Rightarrow>
          (case map_of (tcols t) c of
             None \<Rightarrow> (Inl (SQLError AlterDate), db)
           | Some ty \<Rightarrow>
               if fail_alter F c \<or> \<not> castable_to_date ty
                  \<or> list_ex (\<lambda>v. cast_date L v = None) (column_values t c)
               then (Inl (SQLError AlterDate), db)
               else (Inr (),
                     db(tbl \<mapsto> t\<lparr>tcols := map (\<lambda>(n, ty). if n = c then (n, Date) else (n, ty)) (tcols t),
                                 trows := map (map (\<lambda>(n, v). if n = c then (n, cast_or_keep L v) else (n, v)))
                                            (trows t)\<rparr>))))"

text \<open>\<^verbatim>\<open>SELECT c FROM t LIMIT 10\<close>, in the order the rows were loaded.\<close>

definition select_sample :: "string \<Rightarrow> string \<Rightarrow> db \<Rightarrow> error + cell list" where
  "select_sample tbl c db =
     (case db tbl of
        None \<Rightarrow> Inl (SQLError SelectSample)
      | Some t \<Rightarrow>
          if c \<in> set (map fst (tcols t)) then Inr (take 10 (column_values t c))
          else Inl (SQLError SelectSample))"

text \<open>
  The loop of \<^verbatim>\<open>attempt_cast_date_columns\<close>. In the \<^verbatim>\<open>except\<close> branch the sample is
  fetched first; if that query fails, its error is the one that leaves the function.
\<close>

fun cast_loop :: "lib \<Rightarrow> faults \<Rightarrow> string \<Rightarrow> string list \<Rightarrow> db \<Rightarrow> (error + unit) \<times> db" where
  "cast_loop L F staging_table [] db = (Inr (), db)"
| "cast_loop L F staging_table (c # cs) db =
     (case alter_column_date L F staging_table c db of
        (Inr u, db1) \<Rightarrow> cast_loop L F staging_table cs db1
      | (Inl e, db1) \<Rightarrow>
          (case select_sample staging_table c db1 of
             Inl e2 \<Rightarrow> (Inl e2, db1)
           | Inr sample_vals \<Rightarrow> (Inl (RuntimeError c e sample_vals), db1)))"

definition attempt_cast_date_columns ::
    "lib \<Rightarrow> faults \<Rightarrow> string \<Rightarrow> dataframe \<Rightarrow> db \<Rightarrow> (error + unit) \<times> db" where
  "attempt_cast_date_columns L F staging_table df db =
     (let date_cols = filter is_date_col (colnames df)
      in if date_cols = [] then (Inr (), db)
         else cast_loop L F staging_table date_cols db)"

subsection \<open>Merge\<close>

text \<open>
  \<^verbatim>\<open>INSERT INTO sink (cols) SELECT cols FROM staging ON CONFLICT (key) DO UPDATE SET c =
  EXCLUDED.c, ...\<close> for every column \<open>c\<close> of the frame but the key. The row proposed for
  insertion has the staging values in the listed columns and null elsewhere. A proposed row
  whose key is not null and equals the key of a sink row updates that row in the listed
  non-key columns; any other proposed row is inserted. The statement fails when
  \<^item> the sink or the staging relation is missing, or lacks a listed column;
  \<^item> no column but the key is listed (the \<^verbatim>\<open>SET\<close> list is empty);
  \<^item> the sink has no unique constraint on the key column;
  \<^item> two proposed rows have the same non-null key (a row would be affected twice);
  \<^item> the result violates a unique constraint of the sink.
\<close>

definition new_row :: "string list \<Rightarrow> string list \<Rightarrow> row \<Rightarrow> row" where
  "new_row sink_cols cols r = map (\<lambda>c. (c, if c \<in> set cols then row_get r c else Null)) sink_cols"

definition update_row :: "string list \<Rightarrow> row \<Rightarrow> row \<Rightarrow> row" where
  "update_row updates excluded t = map (\<lambda>(c, v). if c \<in> set updates then (c, row_get excluded c) else (c, v)) t"

definition upsert_row :: "string \<Rightarrow> string list \<Rightarrow> row list \<Rightarrow> row \<Rightarrow> row list" where
  "upsert_row key updates sink excluded =
     (let k = row_get excluded key
      in if k \<noteq> Null \<and> list_ex (\<lambda>t. row_get t key = k) sink
         then map (\<lambda>t. if row_get t key = k then update_row updates excluded t else t) sink
         else sink @ [excluded])"

definition exec_upsert :: "string \<Rightarrow> string \<Rightarrow> string list \<Rightarrow> string \<Rightarrow> db \<Rightarrow> error + db" where
  "exec_upsert table_name staging_table cols unique_key db =
     (case (db table_name, db staging_table) of
        (Some t, Some s) \<Rightarrow>
          (let updates = filter (\<lambda>c. c \<noteq> unique_key) cols;
               proposed = map (new_row (map fst (tcols t)) cols) (trows s);
               keys = filter (\<lambda>k. k \<noteq> Null) (map (\<lambda>r. row_get r unique_key) proposed);
               merged = foldl (upsert_row unique_key updates) (trows t) proposed
           in if updates = []
                 \<or> \<not> list_all (\<lambda>c. c \<in> set (map fst (tcols t)) \<and> c \<in> set (map fst (tcols s))) cols
                 \<or> unique_key \<notin> set (tunique t)
                 \<or> \<not> distinct keys
                 \<or> \<not> unique_ok (tunique t) merged
              then Inl (SQLError Upsert)
              else Inr (db(table_name \<mapsto> t\<lparr>trows := merged\<rparr>)))
      | _ \<Rightarrow> Inl (SQLError Upsert))"

text \<open>
  The block \<^verbatim>\<open>with engine.begin() as conn\<close>: the merge and \<^verbatim>\<open>DROP TABLE IF EXISTS staging\<close>
  are one transaction, committed as a whole or not at all.
\<close>

definition upsert_transaction ::
    "faults \<Rightarrow> string \<Rightarrow> string \<Rightarrow> string list \<Rightarrow> string \<Rightarrow> db \<Rightarrow> (error + unit) \<times> db" where
  "upsert_transaction F table_name staging_table cols unique_key db =
     (if fail_upsert F then (Inl (SQLError Upsert), db)
      else (case exec_upsert table_name staging_table cols unique_key db of
              Inl e \<Rightarrow> (Inl e, db)
            | Inr db1 \<Rightarrow>
                if fail_drop_final F then (Inl (SQLError DropFinal), db)
                else (Inr (), db1(staging_table := None))))"

subsection \<open>The upsert load\<close>

definition staging_name :: "string \<Rightarrow> string" where
  "staging_name table_name = table_name @ ''_staging''"

text \<open>
  \<^verbatim>\<open>load_df_to_postgres_upsert\<close>. Its \<^verbatim>\<open>except\<close> clause logs and raises again: an error of
  a step leaves the function with the database as that step left it.
\<close>

definition load_df_to_postgres_upsert ::
    "lib \<Rightarrow> faults \<Rightarrow> dataframe \<Rightarrow> string \<Rightarrow> string \<Rightarrow> db \<Rightarrow> (error + unit) \<times> db" where
  "load_df_to_postgres_upsert L F df table_name unique_key db =
     (case (if db table_name = None then create_table_if_not_exists F table_name (df_head df 0) db
            else (Inr (), db)) of
        (Inl e, db1) \<Rightarrow> (Inl e, db1)
      | (Inr u1, db1) \<Rightarrow>
          (case create_staging_table F (staging_name table_name) df db1 of
             (Inl e, db2) \<Rightarrow> (Inl e, db2)
           | (Inr u2, db2) \<Rightarrow>
               (case copy_df_to_table_via_copy F df (staging_name table_name) db2 of
                  (Inl e, db3) \<Rightarrow> (Inl e, db3)
                | (Inr u3, db3) \<Rightarrow>
                    (case attempt_cast_date_columns L F (staging_name table_name) df db3 of
                       (Inl e, db4) \<Rightarrow> (Inl e, db4)
                     | (Inr u4, db4) \<Rightarrow>
                         upsert_transaction F table_name (staging_name table_name)
                           (colnames df) unique_key db4))))"

section \<open>Orchestrator\<close>

text \<open>
  The object store and the JSON-Schema validator are outside the repository:
  \<open>store\<close> maps an object key to the frame \<^verbatim>\<open>download_object_as_df\<close> returns for it (or to
  the error it raises), and \<open>schema\<close> is what \<^verbatim>\<open>load_json_schema\<close> finds: the function
  giving the errors the schema reports for a record, or \<open>None\<close> when the schema file is
  missing (\<^verbatim>\<open>FileNotFoundError\<close>).
\<close>

definition validate_dataframe_schema ::
    "(row \<Rightarrow> string list) option \<Rightarrow> dataframe \<Rightarrow> nat \<Rightarrow> error + (nat \<times> string list \<times> row) list" where
  "validate_dataframe_schema schema df sample_limit =
     (case schema of
        None \<Rightarrow> Inl FileNotFoundError
      | Some validate_row \<Rightarrow>
          Inr (filter (\<lambda>(i, errors, r). errors \<noteq> [])
                 (map (\<lambda>(i, r). (i, validate_row r, r)) (take sample_limit (enumerate 0 (df_rows df))))))"

definition run_etl_from_minio_to_postgres ::
    "(string \<Rightarrow> error + dataframe) \<Rightarrow> (row \<Rightarrow> string list) option \<Rightarrow> lib \<Rightarrow> faults \<Rightarrow>
     string \<Rightarrow> bool \<Rightarrow> bool \<Rightarrow> db \<Rightarrow> (error + unit) \<times> db" where
  "run_etl_from_minio_to_postgres store schema L F object_key perform_upsert schema_check db =
     (case store object_key of
        Inl e \<Rightarrow> (Inl e, db)
      | Inr df_raw \<Rightarrow>
          (let df_clean = transform_orders_df L df_raw;
               dq = basic_data_quality_checks df_clean REQUIRED_COLUMNS
           in if dq \<noteq> [] then (Inl (ValueError ''Data quality checks failed.''), db)
              else (case (if schema_check
                          then (case validate_dataframe_schema schema df_clean 1000 of
                                  Inl e \<Rightarrow> Inl e
                                | Inr schema_errors \<Rightarrow>
                                    if schema_errors \<noteq> [] then Inl (ValueError ''Schema validation failed.'')
                                    else Inr ())
                          else Inr ()) of
                      Inl e \<Rightarrow> (Inl e, db)
                    | Inr u \<Rightarrow>
                        if perform_upsert
                        then load_df_to_postgres_upsert L F df_clean TARGET_TABLE UNIQUE_KEY db
                        else copy_df_to_table_via_copy F df_clean TARGET_TABLE db)))"

section \<open>Example inputs\<close>

text \<open>
  A concrete library, for evaluating the model on examples: numbers are read from plain
  decimal notation (\<^verbatim>\<open>3\<close>, \<^verbatim>\<open>2.9\<close>), float arithmetic is exact, and two dates are known, with
  their timestamps in nanoseconds since the epoch.
\<close>

definition is_digit :: "char \<Rightarrow> bool" where
  "is_digit c = (let n = (of_char c :: nat) in 48 \<le> n \<and> n \<le> 57)"

definition digits_val :: "string \<Rightarrow> nat" where
  "digits_val s = foldl (\<lambda>a c. 10 * a + (of_char c - 48)) 0 s"

definition decimal_str_to_num :: "string \<Rightarrow> pynum option" where
  "decimal_str_to_num s =
     (let ip = takeWhile is_digit s; rest = dropWhile is_digit s
      in if ip = [] then None
         else (case rest of
                 [] \<Rightarrow> Some (NInt (of_nat (digits_val ip)))
               | c # fp \<Rightarrow>
                   if c = CHR ''.'' \<and> fp \<noteq> [] \<and> list_all is_digit fp
                   then Some (NFloat (of_nat (digits_val ip) + of_nat (digits_val fp) / 10 ^ length fp))
                   else None))"

definition example_dates :: "(string \<times> 64 word) list" where
  "example_dates = [(''2024-01-01'', 1704067200000000000), (''2024-01-02'', 1704153600000000000)]"

definition example_lib :: lib where
  "example_lib =
     \<lparr>str_to_num = decimal_str_to_num,
      to_datetime_val = (\<lambda>col v. case v of StrV s \<Rightarrow> map_of example_dates s | TsV t \<Rightarrow> Some t | _ \<Rightarrow> None),
      ts_date_iso = map_of (map (\<lambda>(s, t). (t, s)) example_dates),
      ts_str = (\<lambda>t. ''Timestamp''),
      i2f = (\<lambda>i. of_int (sint i)),
      fmul = (\<lambda>a b. a * b),
      pg_date_in = map_of example_dates\<rparr>"

definition no_faults :: faults where
  "no_faults =
     \<lparr>fail_create_target = False, fail_drop_staging = False, fail_create_staging = False,
      fail_copy = False, fail_alter = (\<lambda>c. False), fail_upsert = False, fail_drop_final = False\<rparr>"

definition empty_frame :: dataframe where
  "empty_frame = \<lparr>df_columns = [], df_index = []\<rparr>"

text \<open>
  A source object of three records; the second has no order id, the third a quantity and a
  date that cannot be read.
\<close>

definition orders_raw :: dataframe where
  "orders_raw =
     \<lparr>df_columns =
        [('' Order_ID'', FloatCol [Some 1, None, Some 2]),
         (''user_id'', IntCol [10, 11, 12]),
         (''product_id'', IntCol [100, 101, 102]),
         (''Quantity'', ObjCol [Some ''3'', Some ''1'', Some ''x'']),
         (''price'', FloatCol [Some (5 / 2), Some 4, Some (5 / 2)]),
         (''order_date'', ObjCol [Some ''2024-01-01'', Some ''2024-01-02'', Some ''soon''])],
      df_index = [0, 1, 2]\<rparr>"

definition orders_clean :: dataframe where
  "orders_clean =
     \<lparr>df_columns =
        [(''order_id'', FloatCol [Some 1, Some 2]),
         (''user_id'', IntCol [10, 12]),
         (''product_id'', IntCol [100, 102]),
         (''quantity'', IntCol [3, 0]),
         (''price'', FloatCol [Some (5 / 2), Some (5 / 2)]),
         (''order_date'', ObjCol [Some ''2024-01-01'', None]),
         (''total_price'', FloatCol [Some (15 / 2), Some 0])],
      df_index = [0, 1]\<rparr>"

text \<open>A record with a fractional quantity, as text.\<close>

definition orders_fractional :: dataframe where
  "orders_fractional =
     \<lparr>df_columns =
        [(''order_id'', IntCol [7]),
         (''quantity'', ObjCol [Some ''2.9'']),
         (''price'', FloatCol [Some 10])],
      df_index = [0]\<rparr>"

text \<open>A frame with a date that PostgreSQL cannot read, and a sink for it.\<close>

definition bad_dates :: dataframe where
  "bad_dates =
     \<lparr>df_columns =
        [(''order_id'', IntCol [1, 2]),
         (''order_date'', ObjCol [Some ''2024-01-01'', Some ''not-a-date''])],
      df_index = [0, 1]\<rparr>"

definition dates_sink :: table where
  "dates_sink =
     \<lparr>tcols = [(''order_id'', Integer), (''order_date'', Date)],
      tunique = [''order_id''],
      trows = []\<rparr>"

text \<open>The staging relation that the load of \<open>bad_dates\<close> creates and fills.\<close>

definition bad_staging :: table where
  "bad_staging =
     \<lparr>tcols = [(''order_id'', Integer), (''order_date'', Text)],
      tunique = [],
      trows = [[(''order_id'', IntV 1), (''order_date'', StrV ''2024-01-01'')],
               [(''order_id'', IntV 2), (''order_date'', StrV ''not-a-date'')]]\<rparr>"



text \<open>A sink provisioned for the orders, with its primary key and no rows yet.\<close>

definition orders_sink :: table where
  "orders_sink =
     \<lparr>tcols = [(''order_id'', Float), (''user_id'', Integer), (''product_id'', Integer),
               (''quantity'', Integer), (''price'', Float), (''order_date'', Date),
               (''total_price'', Float)],
      tunique = [''order_id''],
      trows = []\<rparr>"

text \<open>A record with an int64 quantity: three items at 2.5.\<close>

definition orders_numeric :: dataframe where
  "orders_numeric =
     \<lparr>df_columns =
        [(''order_id'', IntCol [1]),
         (''quantity'', IntCol [3]),
         (''price'', FloatCol [Some (5 / 2)])],
      df_index = [0]\<rparr>"

section \<open>Properties\<close>

subsection \<open>Frames\<close>

lemma map_of_map_snd:
  "map_of (map (\<lambda>(n, s). (n, f s)) xs) m = map_option f (map_of xs m)"
  by (induction xs) auto

lemma map_of_replace:
  "map_of (map (\<lambda>(n, old). if n = name then (n, s) else (n, old)) xs) m =
     (if m = name then (if name \<in> fst ` set xs then Some s else None) else map_of xs m)"
proof (induction xs)
  case Nil
  then show ?case by simp
next
  case (Cons a xs)
  then show ?case by (cases a) force
qed

lemma get_col_set_col: "get_col (set_col df n s) m = (if m = n then Some s else get_col df m)"
proof (cases "n \<in> set (colnames df)")
  case True
  then show ?thesis
    by (simp add: get_col_def set_col_def colnames_def map_of_replace)
next
  case False
  then have "map_of (df_columns df) n = None"
    by (simp add: colnames_def map_of_eq_None_iff)
  with False show ?thesis
    by (auto simp: get_col_def set_col_def map_add_def split: option.splits)
qed

lemma df_index_set_col: "df_index (set_col df n s) = df_index df"
  by (simp add: set_col_def)

lemma get_col_None_iff: "get_col df n = None \<longleftrightarrow> n \<notin> set (colnames df)"
  by (simp add: get_col_def colnames_def map_of_eq_None_iff)

lemma filter_mask_self: "filter_mask (map P xs) xs = filter P xs"
  by (induction xs) (simp_all add: filter_mask_def)

lemma filter_mask_map: "filter_mask m (map f xs) = map f (filter_mask m xs)"
  unfolding filter_mask_def
  by (induction m arbitrary: xs) (auto simp: zip_Cons1 split: list.splits)

lemma cells_filter_series: "cells (filter_series m s) = filter_mask m (cells s)"
  by (cases s) (simp_all add: filter_mask_map)

lemma dtype_of_filter_series: "dtype_of (filter_series m s) = dtype_of s"
  by (cases s) simp_all

lemma get_col_dropna:
  "get_col df key = Some k \<Longrightarrow>
   get_col (dropna_subset df key) n = map_option (filter_series (notna k)) (get_col df n)"
  by (simp add: dropna_subset_def get_col_def map_of_map_snd)

lemma get_col_reset_index: "get_col (reset_index df) n = get_col df n"
  by (simp add: reset_index_def get_col_def)

lemma df_len_reset_index: "df_len (reset_index df) = df_len df"
  by (simp add: reset_index_def df_len_def)

subsection \<open>Type inference\<close>

lemma pandas_dtype_to_sqlalchemy_dtype:
  "pandas_dtype_to_sqlalchemy n s =
     Column n (case dtype_of s of Int64 \<Rightarrow> Integer | Float64 \<Rightarrow> Float | BoolD \<Rightarrow> Boolean
                 | Datetime64 \<Rightarrow> Date | ObjectD \<Rightarrow> Text)"
  by (cases s) (simp_all add: pandas_dtype_to_sqlalchemy_def is_integer_dtype_def is_float_dtype_def
      is_bool_dtype_def is_datetime64_any_dtype_def)

text \<open>
  C4, as the code has it. The Type Inferencer looks at the dtype of the column, not at its
  values: an int64 column gives INTEGER, a float64 column FLOAT, a bool column BOOLEAN, a
  datetime64 column DATE and every other column TEXT. It is a total function, so it never
  fails. The columns \<open>[1, 2, 3]\<close>, \<open>[1.5, 2]\<close> and \<open>["a", "b"]\<close> give INTEGER, FLOAT and TEXT;
  the column of strings \<open>["2024-01-01", "2024-01-02"]\<close> is an object column and gives TEXT.
\<close>

theorem type_inferencer_by_dtype:
  "pandas_dtype_to_sqlalchemy n (IntCol xs) = Column n Integer
   \<and> pandas_dtype_to_sqlalchemy n (FloatCol fs) = Column n Float
   \<and> pandas_dtype_to_sqlalchemy n (BoolCol bs) = Column n Boolean
   \<and> pandas_dtype_to_sqlalchemy n (DtCol ds) = Column n Date
   \<and> pandas_dtype_to_sqlalchemy n (ObjCol ss) = Column n Text
   \<and> pandas_dtype_to_sqlalchemy n (IntCol [1, 2, 3]) = Column n Integer
   \<and> pandas_dtype_to_sqlalchemy n (FloatCol [Some (3 / 2), Some 2]) = Column n Float
   \<and> pandas_dtype_to_sqlalchemy n (ObjCol [Some ''2024-01-01'', Some ''2024-01-02'']) = Column n Text
   \<and> pandas_dtype_to_sqlalchemy n (ObjCol [Some ''a'', Some ''b'']) = Column n Text"
  by (simp add: pandas_dtype_to_sqlalchemy_dtype)

text \<open>
  C4 as stated fails: the column \<open>["2024-01-01", "2024-01-02"]\<close> does not infer DATE.
\<close>

theorem type_inferencer_date_strings_counterexample:
  "pandas_dtype_to_sqlalchemy ''order_date'' (ObjCol [Some ''2024-01-01'', Some ''2024-01-02''])
     \<noteq> Column ''order_date'' Date"
  by (simp add: pandas_dtype_to_sqlalchemy_dtype)

subsection \<open>Dropping the records without a key\<close>

lemma cells_dropna_key:
  "cells (filter_series (notna k) k) = filter (\<lambda>c. c \<noteq> Null) (cells k)"
  by (simp add: cells_filter_series notna_def filter_mask_self)

lemma transform_index: "df_index (transform_orders_df L df) = [0 ..< df_len (transform_orders_df L df)]"
  by (simp add: transform_orders_df_def Let_def reset_index_def df_len_def)

lemma transform_get_col:
  "get_col (transform_orders_df L df) n =
     (case get_col (derived_frame L df) UNIQUE_KEY of
        None \<Rightarrow> get_col (derived_frame L df) n
      | Some k \<Rightarrow> map_option (filter_series (notna k)) (get_col (derived_frame L df) n))"
proof (cases "get_col (derived_frame L df) UNIQUE_KEY")
  case None
  then have "UNIQUE_KEY \<notin> set (colnames (derived_frame L df))"
    by (simp add: get_col_None_iff)
  with None show ?thesis
    by (simp add: transform_orders_df_def derived_frame_def Let_def get_col_reset_index)
next
  case (Some k)
  then have "UNIQUE_KEY \<in> set (colnames (derived_frame L df))"
    using get_col_None_iff [of "derived_frame L df" UNIQUE_KEY] by simp
  with Some show ?thesis
    by (simp add: transform_orders_df_def derived_frame_def Let_def get_col_reset_index get_col_dropna)
qed

lemmas eval_defs = transform_orders_df_def rename_columns_def normalize_name_def strip_def lower_def
  is_space_def char_lower_def parse_order_date_def derive_total_def get_col_def set_col_def colnames_def
  to_datetime_def to_iso_date_def apply_to_iso_date_def parse_obj_def dropna_subset_def notna_def
  filter_mask_def reset_index_def df_len_def UNIQUE_KEY_def opt_cell_def f2i_def trunc_rat_def
  example_lib_def decimal_str_to_num_def is_digit_def digits_val_def example_dates_def

lemma transform_orders_raw: "transform_orders_df example_lib orders_raw = orders_clean"
  by (simp add: eval_defs orders_raw_def orders_clean_def)

subsection \<open>The errors of the load\<close>

lemma alter_column_date_error:
  "alter_column_date L F tbl c db = (Inl e, db') \<Longrightarrow> e = SQLError AlterDate \<and> db' = db"
  by (auto simp: alter_column_date_def split: option.splits if_splits)

lemma select_sample_error: "select_sample tbl c db = Inl e \<Longrightarrow> e = SQLError SelectSample"
  by (auto simp: select_sample_def split: option.splits if_splits)

lemma cast_loop_error:
  "cast_loop L F st cs db = (Inl e, db') \<Longrightarrow>
     e = SQLError SelectSample \<or> (\<exists>c vs. e = RuntimeError c (SQLError AlterDate) vs)"
proof (induction cs arbitrary: db)
  case Nil
  then show ?case by simp
next
  case (Cons c cs)
  show ?case
  proof (cases "alter_column_date L F st c db")
    case (Pair r db1)
    show ?thesis
    proof (cases r)
      case (Inl e1)
      with Pair have "e1 = SQLError AlterDate" by (simp add: alter_column_date_error)
      with Cons.prems Pair Inl show ?thesis
        by (auto split: sum.splits dest: select_sample_error)
    next
      case (Inr u)
      with Cons Pair show ?thesis by simp
    qed
  qed
qed

lemma load_error_not_ValueError:
  "load_df_to_postgres_upsert L F df table_name unique_key db = (Inl e, db') \<Longrightarrow> e \<noteq> ValueError m"
  unfolding load_df_to_postgres_upsert_def
  by (auto simp: create_table_if_not_exists_def create_staging_table_def Let_def
      copy_df_to_table_via_copy_def attempt_cast_date_columns_def upsert_transaction_def
      exec_upsert_def
      split: if_splits sum.splits prod.splits option.splits dest: cast_loop_error)

lemma copy_error_not_ValueError:
  "copy_df_to_table_via_copy F df table_name db = (Inl e, db') \<Longrightarrow> e \<noteq> ValueError m"
  by (auto simp: copy_df_to_table_via_copy_def Let_def split: if_splits option.splits)

subsection \<open>Quality gate\<close>

lemma dq_nonempty_iff:
  "basic_data_quality_checks df req \<noteq> [] \<longleftrightarrow>
     (\<exists>c \<in> set req. c \<notin> set (colnames df)) \<or> df_len df = 0
     \<or> (\<exists>k. get_col df UNIQUE_KEY = Some k \<and> duplicated_any k)"
  by (auto simp: basic_data_quality_checks_def Let_def filter_empty_conv split: option.splits)

lemma dq_members:
  "((\<exists>m. MissingRequired m \<in> set (basic_data_quality_checks df req)) \<longleftrightarrow>
       (\<exists>c \<in> set req. c \<notin> set (colnames df)))
   \<and> (NoRows \<in> set (basic_data_quality_checks df req) \<longleftrightarrow> df_len df = 0)
   \<and> (DuplicateKey \<in> set (basic_data_quality_checks df req) \<longleftrightarrow>
       (\<exists>k. get_col df UNIQUE_KEY = Some k \<and> duplicated_any k))"
  by (auto simp: basic_data_quality_checks_def Let_def filter_empty_conv split: option.splits)

lemma run_etl_gate_closed:
  "store object_key = Inr df_raw \<Longrightarrow>
   basic_data_quality_checks (transform_orders_df L df_raw) REQUIRED_COLUMNS \<noteq> [] \<Longrightarrow>
   run_etl_from_minio_to_postgres store schema L F object_key perform_upsert schema_check db =
     (Inl (ValueError ''Data quality checks failed.''), db)"
  by (simp add: run_etl_from_minio_to_postgres_def Let_def)

lemma run_etl_gate_open:
  assumes "store object_key = Inr df_raw"
    and "basic_data_quality_checks (transform_orders_df L df_raw) REQUIRED_COLUMNS = []"
  shows "fst (run_etl_from_minio_to_postgres store schema L F object_key perform_upsert schema_check db)
           \<noteq> Inl (ValueError ''Data quality checks failed.'')"
proof
  assume a: "fst (run_etl_from_minio_to_postgres store schema L F object_key perform_upsert schema_check db)
           = Inl (ValueError ''Data quality checks failed.'')"
  obtain r db' where r: "run_etl_from_minio_to_postgres store schema L F object_key perform_upsert schema_check db = (r, db')"
    by (cases "run_etl_from_minio_to_postgres store schema L F object_key perform_upsert schema_check db")
  with a have r': "r = Inl (ValueError ''Data quality checks failed.'')" by simp
  from r [unfolded r'] assms show False
    by (auto simp: run_etl_from_minio_to_postgres_def Let_def validate_dataframe_schema_def
        split: if_splits sum.splits option.splits
        dest: load_error_not_ValueError copy_error_not_ValueError)
qed

text \<open>
  C5. The report of the Quality Gate is non-empty exactly when a required column is
  missing, the frame has no rows, or the unique-key column has a duplicate; each check adds
  its own message whatever the other checks found. When the report of the transformed
  source is non-empty, the run ends with the data-quality error and the database unchanged,
  whatever the schema, the faults and the two flags are (neither validation nor load is
  reached); when it is empty, the run does not end with the data-quality error.
\<close>

theorem quality_gate_hard_stop:
  assumes "store object_key = Inr df_raw"
    and "df = transform_orders_df L df_raw"
    and "report = basic_data_quality_checks df REQUIRED_COLUMNS"
  shows "(report \<noteq> [] \<longleftrightarrow>
            (\<exists>c \<in> set REQUIRED_COLUMNS. c \<notin> set (colnames df)) \<or> df_len df = 0
            \<or> (\<exists>k. get_col df UNIQUE_KEY = Some k \<and> duplicated_any k))
     \<and> ((\<exists>m. MissingRequired m \<in> set report) \<longleftrightarrow> (\<exists>c \<in> set REQUIRED_COLUMNS. c \<notin> set (colnames df)))
     \<and> (NoRows \<in> set report \<longleftrightarrow> df_len df = 0)
     \<and> (DuplicateKey \<in> set report \<longleftrightarrow> (\<exists>k. get_col df UNIQUE_KEY = Some k \<and> duplicated_any k))
     \<and> (report \<noteq> [] \<longrightarrow>
           (\<forall>schema F perform_upsert schema_check.
              run_etl_from_minio_to_postgres store schema L F object_key perform_upsert schema_check db
                = (Inl (ValueError ''Data quality checks failed.''), db)))
     \<and> (report = [] \<longrightarrow>
           (\<forall>schema F perform_upsert schema_check.
              fst (run_etl_from_minio_to_postgres store schema L F object_key perform_upsert schema_check db)
                \<noteq> Inl (ValueError ''Data quality checks failed.'')))"
proof -
  have a: "report \<noteq> [] \<longleftrightarrow>
            (\<exists>c \<in> set REQUIRED_COLUMNS. c \<notin> set (colnames df)) \<or> df_len df = 0
            \<or> (\<exists>k. get_col df UNIQUE_KEY = Some k \<and> duplicated_any k)"
    unfolding assms(3) by (rule dq_nonempty_iff)
  have b: "((\<exists>m. MissingRequired m \<in> set report) \<longleftrightarrow> (\<exists>c \<in> set REQUIRED_COLUMNS. c \<notin> set (colnames df)))
     \<and> (NoRows \<in> set report \<longleftrightarrow> df_len df = 0)
     \<and> (DuplicateKey \<in> set report \<longleftrightarrow> (\<exists>k. get_col df UNIQUE_KEY = Some k \<and> duplicated_any k))"
    unfolding assms(3) by (rule dq_members)
  have c: "report \<noteq> [] \<longrightarrow>
           (\<forall>schema F perform_upsert schema_check.
              run_etl_from_minio_to_postgres store schema L F object_key perform_upsert schema_check db
                = (Inl (ValueError ''Data quality checks failed.''), db))"
    using assms by (simp add: run_etl_gate_closed)
  have d: "report = [] \<longrightarrow>
           (\<forall>schema F perform_upsert schema_check.
              fst (run_etl_from_minio_to_postgres store schema L F object_key perform_upsert schema_check db)
                \<noteq> Inl (ValueError ''Data quality checks failed.''))"
    using assms(1) run_etl_gate_open [of store object_key df_raw L] unfolding assms(3) assms(2)
    by blast
  from a b c d show ?thesis by blast
qed

theorem quality_gate_hard_stop_witness:
  "basic_data_quality_checks (transform_orders_df example_lib empty_frame) REQUIRED_COLUMNS
       = [MissingRequired REQUIRED_COLUMNS, NoRows]
   \<and> run_etl_from_minio_to_postgres (\<lambda>k. Inr empty_frame) None example_lib no_faults ''orders.csv'' True True
         Map.empty
       = (Inl (ValueError ''Data quality checks failed.''), Map.empty)"
proof -
  have t: "transform_orders_df example_lib empty_frame = empty_frame"
    by (simp add: eval_defs empty_frame_def)
  have r: "basic_data_quality_checks empty_frame REQUIRED_COLUMNS = [MissingRequired REQUIRED_COLUMNS, NoRows]"
    by (simp add: basic_data_quality_checks_def empty_frame_def REQUIRED_COLUMNS_def colnames_def
        df_len_def get_col_def)
  have h: "(\<lambda>k. Inr empty_frame) ''orders.csv'' = (Inr empty_frame :: error + dataframe)" by simp
  from quality_gate_hard_stop [OF h t [symmetric] r [symmetric], where db = Map.empty] t r
  show ?thesis by simp
qed

subsection \<open>Derived columns\<close>

lemma filter_mask_Nil [simp]: "filter_mask [] xs = []" "filter_mask m [] = []"
  by (simp_all add: filter_mask_def)

lemma filter_mask_Cons [simp]:
  "filter_mask (b # m) (x # xs) = (if b then x # filter_mask m xs else filter_mask m xs)"
  by (simp add: filter_mask_def)

lemma filter_mask_map2:
  "filter_mask m (map2 f xs ys) = map2 f (filter_mask m xs) (filter_mask m ys)"
proof (induction m arbitrary: xs ys)
  case Nil
  then show ?case by simp
next
  case (Cons b m)
  show ?case
  proof (cases xs)
    case Nil
    then show ?thesis by simp
  next
    case xs: (Cons x xs')
    show ?thesis
    proof (cases ys)
      case Nil
      then show ?thesis by simp
    next
      case (Cons y ys')
      with xs Cons.IH show ?thesis by simp
    qed
  qed
qed

lemma filter_product:
  "\<exists>pn'. filter_series m (series_of_numeric pn) = series_of_numeric pn'
        \<and> filter_series m (series_of_numeric (mul_int_numeric L qs pn))
            = series_of_numeric (mul_int_numeric L (filter_mask m qs) pn')"
proof (cases pn)
  case (NumInt ps)
  then show ?thesis
    by (intro exI [of _ "NumInt (filter_mask m ps)"]) (simp add: filter_mask_map2)
next
  case (NumFloat ps)
  then show ?thesis
    by (intro exI [of _ "NumFloat (filter_mask m ps)"]) (simp add: filter_mask_map2)
next
  case (NumBool ps)
  then show ?thesis
    by (intro exI [of _ "NumBool (filter_mask m ps)"]) (simp add: filter_mask_map2)
qed

lemma transform_get_col_keep:
  "get_col (transform_orders_df L df) n = map_option (keep_keyed L df) (get_col (derived_frame L df) n)"
  by (cases "get_col (derived_frame L df) n")
     (simp_all add: transform_get_col keep_keyed_def split: option.splits)

lemma get_col_parse_order_date:
  "n \<noteq> ''order_date'' \<Longrightarrow> get_col (parse_order_date L df) n = get_col df n"
  by (simp add: parse_order_date_def Let_def get_col_set_col split: option.splits)

lemma derived_frame_numeric:
  assumes "get_col (rename_columns normalize_name df) ''quantity'' = Some q"
    and "get_col (rename_columns normalize_name df) ''price'' = Some p"
  shows "get_col (derived_frame L df) ''quantity'' = Some (IntCol (astype_int (fillna_zero (to_numeric L q))))"
    and "get_col (derived_frame L df) ''price'' = Some (series_of_numeric (fillna_zero (to_numeric L p)))"
    and "get_col (derived_frame L df) ''total_price'' =
           Some (series_of_numeric (mul_int_numeric L (astype_int (fillna_zero (to_numeric L q)))
                   (fillna_zero (to_numeric L p))))"
  using assms
  by (simp_all add: derived_frame_def derive_total_def Let_def get_col_set_col get_col_parse_order_date)

lemma keep_keyed_product:
  "\<exists>qs' pn'. keep_keyed L df (IntCol qs) = IntCol qs'
      \<and> keep_keyed L df (series_of_numeric pn) = series_of_numeric pn'
      \<and> keep_keyed L df (series_of_numeric (mul_int_numeric L' qs pn))
            = series_of_numeric (mul_int_numeric L' qs' pn')"
proof (cases "get_col (derived_frame L df) UNIQUE_KEY")
  case None
  then show ?thesis by (auto simp: keep_keyed_def)
next
  case (Some k)
  from filter_product [of "notna k" pn L' qs] Some show ?thesis
    by (auto simp: keep_keyed_def)
qed

text \<open>What the coercions make of the entries of an object column and of a float column.\<close>

lemma f2i_zero [simp]: "f2i 0 = 0"
  by (simp add: f2i_def trunc_rat_def)

lemma quantity_of_object:
  assumes "i < length xs"
  shows "astype_int (fillna_zero (to_numeric L (ObjCol xs))) ! i =
     (case parse_obj L (xs ! i) of
        None \<Rightarrow> 0
      | Some (NFloat r) \<Rightarrow> f2i r
      | Some (NInt n) \<Rightarrow> if list_all is_int_num (map (parse_obj L) xs) then n else f2i (i2f L n))"
proof (cases "list_all is_int_num (map (parse_obj L) xs)")
  case True
  with assms have "is_int_num (parse_obj L (xs ! i))"
    by (simp add: list_all_length)
  then obtain n where "parse_obj L (xs ! i) = Some (NInt n)"
    by (cases "parse_obj L (xs ! i)" rule: is_int_num.cases) simp_all
  with True assms show ?thesis by (simp add: Let_def)
next
  case False
  with assms show ?thesis
    by (simp add: Let_def split: option.splits pynum.splits)
qed

lemma quantity_of_float:
  "i < length xs \<Longrightarrow>
   astype_int (fillna_zero (to_numeric L (FloatCol xs))) ! i = (case xs ! i of None \<Rightarrow> 0 | Some r \<Rightarrow> f2i r)"
  by (simp split: option.splits)

lemma price_of_object:
  "fillna_zero (to_numeric L (ObjCol xs)) =
     (if list_all is_int_num (map (parse_obj L) xs) then NumInt (map (\<lambda>x. int_of_num (parse_obj L x)) xs)
      else NumFloat (map (\<lambda>x. case float_of_num L (parse_obj L x) of None \<Rightarrow> Some 0 | Some r \<Rightarrow> Some r) xs))"
  by (simp add: Let_def comp_def)


lemma floor_rat_numeral: "\<lfloor>numeral a / numeral b :: rat\<rfloor> = numeral a div numeral b"
  using floor_divide_of_int_eq [of "numeral a" "numeral b", where ?'a = rat] by simp

lemma ceiling_rat_numeral: "\<lceil>- (numeral a / numeral b) :: rat\<rceil> = - (numeral a div numeral b)"
  by (simp add: ceiling_def floor_rat_numeral)

lemma sint_f2i:
  "- (2 ^ 63) \<le> trunc_rat r \<Longrightarrow> trunc_rat r < 2 ^ 63 \<Longrightarrow> sint (f2i r) = trunc_rat r"
  unfolding f2i_def
  by (simp add: sint_sbintrunc' signed_take_bit_int_eq_self)

lemma length_astype_int_to_numeric:
  "length (astype_int (fillna_zero (to_numeric L q))) = series_len q"
  by (cases q) (simp_all add: series_len_def Let_def)

lemma length_price_cells:
  "length (cells (series_of_numeric (fillna_zero (to_numeric L p)))) = series_len p"
  by (cases p) (simp_all add: series_len_def Let_def)

lemma cells_fillna_zero_not_Null: "Null \<notin> set (cells (series_of_numeric (fillna_zero n)))"
  by (cases n) (auto simp: opt_cell_def split: option.splits)

lemma set_filter_mask: "set (filter_mask m xs) \<subseteq> set xs"
  unfolding filter_mask_def by (auto dest: set_zip_rightD)

lemma cells_keep_keyed_subset: "set (cells (keep_keyed L df s)) \<subseteq> set (cells s)"
  by (auto simp: keep_keyed_def cells_filter_series split: option.splits
      dest: set_filter_mask [THEN subsetD])

text \<open>The product column, record by record.\<close>

lemma product_nth:
  assumes "i < length qs" and "i < length (cells (series_of_numeric pn))"
  shows "cells (series_of_numeric (mul_int_numeric L qs pn)) ! i =
     (case cells (series_of_numeric pn) ! i of
        IntV n \<Rightarrow> IntV (qs ! i * n)
      | FloatV x \<Rightarrow> FloatV (fmul L (i2f L (qs ! i)) x)
      | BoolV b \<Rightarrow> IntV (if b then qs ! i else 0)
      | _ \<Rightarrow> Null)"
  using assms by (cases pn) (auto simp: opt_cell_def split: option.splits)

lemma length_product:
  "length (cells (series_of_numeric (mul_int_numeric L qs pn))) =
     min (length qs) (length (cells (series_of_numeric pn)))"
  by (cases pn) simp_all

lemmas num_defs = floor_rat_numeral ceiling_rat_numeral

text \<open>
  C10. The quantity column of the output is int64. A quantity that reads as the number
  \<open>r\<close> (a string of an object column that parses as a float, or an entry of a float column)
  becomes \<open>f2i r\<close>, which is \<open>r\<close> truncated towards zero whenever that fits 64 bits (every
  non-integral float64 does); the total_price of that record is the product of the
  truncated quantity and the price. The transformed frame keeps these columns for the
  records with a key.
\<close>

theorem quantity_truncated:
  assumes "get_col (rename_columns normalize_name df) ''quantity'' = Some q"
    and "get_col (rename_columns normalize_name df) ''price'' = Some p"
    and "i < series_len q" and "i < series_len p"
    and "(\<exists>xs. q = ObjCol xs \<and> parse_obj L (xs ! i) = Some (NFloat r))
         \<or> (\<exists>xs. q = FloatCol xs \<and> xs ! i = Some r)"
  shows "\<exists>qs pn.
      get_col (derived_frame L df) ''quantity'' = Some (IntCol qs)
    \<and> get_col (derived_frame L df) ''price'' = Some (series_of_numeric pn)
    \<and> get_col (derived_frame L df) ''total_price'' = Some (series_of_numeric (mul_int_numeric L qs pn))
    \<and> qs ! i = f2i r
    \<and> (- (2 ^ 63) \<le> trunc_rat r \<and> trunc_rat r < 2 ^ 63 \<longrightarrow> sint (qs ! i) = trunc_rat r)
    \<and> trunc_rat r = (if 0 \<le> r then \<lfloor>r\<rfloor> else \<lceil>r\<rceil>)
    \<and> cells (series_of_numeric (mul_int_numeric L qs pn)) ! i =
          (case cells (series_of_numeric pn) ! i of
             IntV n \<Rightarrow> IntV (f2i r * n)
           | FloatV x \<Rightarrow> FloatV (fmul L (i2f L (f2i r)) x)
           | BoolV b \<Rightarrow> IntV (if b then f2i r else 0)
           | _ \<Rightarrow> Null)
    \<and> get_col (transform_orders_df L df) ''quantity'' = Some (keep_keyed L df (IntCol qs))
    \<and> get_col (transform_orders_df L df) ''total_price''
         = Some (keep_keyed L df (series_of_numeric (mul_int_numeric L qs pn)))"
proof -
  let ?qs = "astype_int (fillna_zero (to_numeric L q))"
  let ?pn = "fillna_zero (to_numeric L p)"
  note d = derived_frame_numeric [OF assms(1,2), of L]
  have qi: "?qs ! i = f2i r"
  proof -
    from assms(5) consider xs where "q = ObjCol xs" "parse_obj L (xs ! i) = Some (NFloat r)"
      | xs where "q = FloatCol xs" "xs ! i = Some r" by blast
    then show ?thesis
    proof cases
      case 1
      with assms(3) have "i < length xs" by (simp add: series_len_def)
      with quantity_of_object [of i xs L] 1 show ?thesis by simp
    next
      case 2
      with assms(3) have "i < length xs" by (simp add: series_len_def)
      with quantity_of_float [of i xs L] 2 show ?thesis by simp
    qed
  qed
  have li: "i < length ?qs" "i < length (cells (series_of_numeric ?pn))"
    using assms(3,4) by (simp_all add: length_astype_int_to_numeric length_price_cells)
  have s: "- (2 ^ 63) \<le> trunc_rat r \<and> trunc_rat r < 2 ^ 63 \<longrightarrow> sint (?qs ! i) = trunc_rat r"
    using sint_f2i [of r] qi by simp
  note pr = product_nth [OF li, of L, unfolded qi]
  from d qi s pr show ?thesis
    by (intro exI [of _ ?qs] exI [of _ ?pn]) (simp add: transform_get_col_keep trunc_rat_def)
qed

theorem quantity_truncated_witness:
  "get_col (rename_columns normalize_name orders_fractional) ''quantity'' = Some (ObjCol [Some ''2.9''])
   \<and> parse_obj example_lib (Some ''2.9'') = Some (NFloat (29 / 10))
   \<and> get_col (transform_orders_df example_lib orders_fractional) ''quantity'' = Some (IntCol [2])
   \<and> get_col (transform_orders_df example_lib orders_fractional) ''total_price'' = Some (FloatCol [Some 20])"
proof -
  have q: "get_col (rename_columns normalize_name orders_fractional) ''quantity'' = Some (ObjCol [Some ''2.9''])"
    and p: "get_col (rename_columns normalize_name orders_fractional) ''price'' = Some (FloatCol [Some 10])"
    by (simp_all add: eval_defs orders_fractional_def)
  have n: "parse_obj example_lib (Some ''2.9'') = Some (NFloat (29 / 10))"
    by (simp add: eval_defs)
  have k: "get_col (derived_frame example_lib orders_fractional) UNIQUE_KEY = Some (IntCol [7])"
    by (simp add: derived_frame_def eval_defs orders_fractional_def)
  have h: "(\<exists>xs. ObjCol [Some ''2.9''] = ObjCol xs \<and> parse_obj example_lib (xs ! 0) = Some (NFloat (29 / 10)))
         \<or> (\<exists>xs. ObjCol [Some ''2.9''] = FloatCol xs \<and> xs ! 0 = Some (29 / 10))"
    using n by simp
  have l: "0 < series_len (ObjCol [Some ''2.9''])" "0 < series_len (FloatCol [Some 10])"
    by (simp_all add: series_len_def)
  from quantity_truncated [OF q p l h]
  obtain qs pn where r:
      "get_col (derived_frame example_lib orders_fractional) ''quantity'' = Some (IntCol qs)"
      "get_col (derived_frame example_lib orders_fractional) ''price'' = Some (series_of_numeric pn)"
      "qs ! 0 = f2i (29 / 10)"
      "get_col (transform_orders_df example_lib orders_fractional) ''quantity'' = Some (keep_keyed example_lib orders_fractional (IntCol qs))"
      "get_col (transform_orders_df example_lib orders_fractional) ''total_price''
         = Some (keep_keyed example_lib orders_fractional (series_of_numeric (mul_int_numeric example_lib qs pn)))"
    by blast
  have "get_col (derived_frame example_lib orders_fractional) ''quantity'' = Some (IntCol [2])"
    "get_col (derived_frame example_lib orders_fractional) ''price'' = Some (FloatCol [Some 10])"
    by (simp_all add: derived_frame_def eval_defs orders_fractional_def num_defs)
  with r(1,2) have "qs = [2]" "pn = NumFloat [Some 10]"
    by (simp, cases pn) simp_all
  with r(4,5) k q n show ?thesis
    by (simp add: keep_keyed_def notna_def example_lib_def)
qed

subsection \<open>The order date\<close>

lemma get_col_derive_total:
  "n \<noteq> ''quantity'' \<Longrightarrow> n \<noteq> ''price'' \<Longrightarrow> n \<noteq> ''total_price'' \<Longrightarrow>
   get_col (derive_total L df) n = get_col df n"
  by (simp add: derive_total_def Let_def get_col_set_col split: option.splits)

lemma derived_frame_order_date:
  "get_col (rename_columns normalize_name df) ''order_date'' = Some s \<Longrightarrow>
   get_col (derived_frame L df) ''order_date'' = Some (apply_to_iso_date L (to_datetime L s))"
  by (simp add: derived_frame_def get_col_derive_total parse_order_date_def Let_def get_col_set_col)

lemma cells_apply_to_iso_date:
  "c \<in> set (cells (apply_to_iso_date L xs)) \<Longrightarrow> c = Null \<or> (\<exists>t. c = StrV t)"
  by (auto simp: apply_to_iso_date_def opt_cell_def split: if_splits option.splits)

lemma dtype_apply_to_iso_date:
  "xs \<noteq> [] \<Longrightarrow> dtype_of (apply_to_iso_date L xs) = ObjectD"
  by (simp add: apply_to_iso_date_def)

lemma dtype_keep_keyed: "dtype_of (keep_keyed L df s) = dtype_of s"
  by (simp add: keep_keyed_def dtype_of_filter_series split: option.splits)

lemma map_of_inferred_columns:
  "map_of (inferred_columns df) n =
     map_option (\<lambda>s. case dtype_of s of Int64 \<Rightarrow> Integer | Float64 \<Rightarrow> Float | BoolD \<Rightarrow> Boolean
                       | Datetime64 \<Rightarrow> Date | ObjectD \<Rightarrow> Text) (get_col df n)"
proof -
  have "map_of (map (\<lambda>(n, s). column_spec (pandas_dtype_to_sqlalchemy n s)) xs) n =
     map_option (\<lambda>s. case dtype_of s of Int64 \<Rightarrow> Integer | Float64 \<Rightarrow> Float | BoolD \<Rightarrow> Boolean
                       | Datetime64 \<Rightarrow> Date | ObjectD \<Rightarrow> Text) (map_of xs n)" for xs
    by (induction xs) (auto simp: pandas_dtype_to_sqlalchemy_dtype)
  then show ?thesis by (simp add: inferred_columns_def get_col_def)
qed

lemma get_col_df_head:
  "get_col (df_head df k) n = map_option (filter_series (replicate k True)) (get_col df n)"
  by (simp add: df_head_def get_col_def map_of_map_snd)

lemma df_index_derived_frame: "df_index (derived_frame L df) = df_index df"
  by (simp add: derived_frame_def derive_total_def parse_order_date_def Let_def df_index_set_col
      rename_columns_def split: option.splits)

lemma length_filter_mask: "length (filter_mask m xs) \<le> length xs"
  unfolding filter_mask_def
  by (metis length_filter_le length_map length_zip min.cobounded2 order_trans)

lemma transform_orders_df_derived:
  "transform_orders_df L df =
     reset_index (if UNIQUE_KEY \<in> set (colnames (derived_frame L df))
                  then dropna_subset (derived_frame L df) UNIQUE_KEY else derived_frame L df)"
  by (simp add: transform_orders_df_def derived_frame_def Let_def)

lemma df_len_dropna_le: "df_len (dropna_subset d k) \<le> df_len d"
  by (simp add: dropna_subset_def df_len_def length_filter_mask split: option.splits)

lemma df_len_derived_frame: "df_len (derived_frame L df) = df_len df"
  by (simp add: df_len_def df_index_derived_frame)

lemma df_len_transform_le: "df_len (transform_orders_df L df) \<le> df_len df"
  using df_len_dropna_le [of "derived_frame L df" UNIQUE_KEY]
  by (simp add: transform_orders_df_derived df_len_reset_index df_len_derived_frame)

lemma wf_df_series_len:
  "wf_df df \<Longrightarrow> get_col df n = Some s \<Longrightarrow> series_len s = df_len df"
  by (auto simp: wf_df_def get_col_def list_all_iff dest: map_of_SomeD)

lemma dq_passed_rows: "basic_data_quality_checks df req = [] \<Longrightarrow> 0 < df_len df"
  using dq_nonempty_iff [of df req] by auto

text \<open>
  C9. When the frame has an order_date column, every value of that column in the output
  of the Transformer is null or a text string (the ISO date, or the string form of a
  timestamp whose date cannot be taken), never a timestamp. When the column has at least
  one entry, it is an object column, and the Type Inferencer gives it TEXT both for the
  staging table (inferred from the frame) and for a sink created from \<^verbatim>\<open>df.head(0)\<close>. A
  well-formed frame that passes the Quality Gate, as every frame for which a table is
  created has, has such an entry. (For the empty frame pandas keeps the datetime64 dtype.)
\<close>

theorem order_date_is_text:
  assumes "get_col (rename_columns normalize_name df) ''order_date'' = Some s"
  shows "\<exists>s'. get_col (transform_orders_df L df) ''order_date'' = Some s'
     \<and> s' = keep_keyed L df (apply_to_iso_date L (to_datetime L s))
     \<and> (\<forall>c \<in> set (cells s'). (c = Null \<or> (\<exists>t. c = StrV t)) \<and> (\<forall>w. c \<noteq> TsV w))
     \<and> (0 < series_len s \<longrightarrow>
           dtype_of s' = ObjectD
         \<and> pandas_dtype_to_sqlalchemy ''order_date'' s' = Column ''order_date'' Text
         \<and> map_of (inferred_columns (transform_orders_df L df)) ''order_date'' = Some Text
         \<and> map_of (inferred_columns (df_head (transform_orders_df L df) 0)) ''order_date'' = Some Text)
     \<and> (wf_df (rename_columns normalize_name df)
          \<and> basic_data_quality_checks (transform_orders_df L df) REQUIRED_COLUMNS = []
          \<longrightarrow> 0 < series_len s)"
proof -
  let ?s' = "keep_keyed L df (apply_to_iso_date L (to_datetime L s))"
  have g: "get_col (transform_orders_df L df) ''order_date'' = Some ?s'"
    using derived_frame_order_date [OF assms, of L] by (simp add: transform_get_col_keep)
  have v: "\<forall>c \<in> set (cells ?s'). (c = Null \<or> (\<exists>t. c = StrV t)) \<and> (\<forall>w. c \<noteq> TsV w)"
  proof
    fix c assume "c \<in> set (cells ?s')"
    with cells_keep_keyed_subset [of L df "apply_to_iso_date L (to_datetime L s)"]
    have "c \<in> set (cells (apply_to_iso_date L (to_datetime L s)))" by (rule subsetD)
    from cells_apply_to_iso_date [OF this]
    show "(c = Null \<or> (\<exists>t. c = StrV t)) \<and> (\<forall>w. c \<noteq> TsV w)" by auto
  qed
  have t: "0 < series_len s \<longrightarrow>
           dtype_of ?s' = ObjectD
         \<and> pandas_dtype_to_sqlalchemy ''order_date'' ?s' = Column ''order_date'' Text
         \<and> map_of (inferred_columns (transform_orders_df L df)) ''order_date'' = Some Text
         \<and> map_of (inferred_columns (df_head (transform_orders_df L df) 0)) ''order_date'' = Some Text"
  proof
    assume "0 < series_len s"
    then have "to_datetime L s \<noteq> []" by (simp add: to_datetime_def series_len_def)
    then have d: "dtype_of ?s' = ObjectD"
      by (simp add: dtype_keep_keyed dtype_apply_to_iso_date)
    with g show "dtype_of ?s' = ObjectD
         \<and> pandas_dtype_to_sqlalchemy ''order_date'' ?s' = Column ''order_date'' Text
         \<and> map_of (inferred_columns (transform_orders_df L df)) ''order_date'' = Some Text
         \<and> map_of (inferred_columns (df_head (transform_orders_df L df) 0)) ''order_date'' = Some Text"
      by (simp add: pandas_dtype_to_sqlalchemy_dtype map_of_inferred_columns get_col_df_head
          dtype_of_filter_series)
  qed
  have w: "wf_df (rename_columns normalize_name df)
          \<and> basic_data_quality_checks (transform_orders_df L df) REQUIRED_COLUMNS = []
          \<longrightarrow> 0 < series_len s"
  proof (intro impI, elim conjE)
    assume wf: "wf_df (rename_columns normalize_name df)"
      and dq: "basic_data_quality_checks (transform_orders_df L df) REQUIRED_COLUMNS = []"
    from dq_passed_rows [OF dq] df_len_transform_le [of L df] have "0 < df_len df" by simp
    then have "0 < df_len (rename_columns normalize_name df)"
      by (simp add: df_len_def rename_columns_def)
    with wf_df_series_len [OF wf assms] show "0 < series_len s" by simp
  qed
  show ?thesis
    by (rule exI [of _ ?s'], intro conjI, rule g, rule refl, rule v, rule t, rule w)
qed


lemma orders_clean_passes_gate: "basic_data_quality_checks orders_clean REQUIRED_COLUMNS = []"
  by (simp add: basic_data_quality_checks_def orders_clean_def REQUIRED_COLUMNS_def colnames_def
      df_len_def get_col_def UNIQUE_KEY_def duplicated_any_def opt_cell_def)

theorem order_date_is_text_witness:
  "get_col (rename_columns normalize_name orders_raw) ''order_date''
       = Some (ObjCol [Some ''2024-01-01'', Some ''2024-01-02'', Some ''soon''])
   \<and> 0 < series_len (ObjCol [Some ''2024-01-01'', Some ''2024-01-02'', Some ''soon''])
   \<and> wf_df (rename_columns normalize_name orders_raw)
   \<and> basic_data_quality_checks (transform_orders_df example_lib orders_raw) REQUIRED_COLUMNS = []
   \<and> get_col (transform_orders_df example_lib orders_raw) ''order_date'' = Some (ObjCol [Some ''2024-01-01'', None])
   \<and> map_of (inferred_columns (transform_orders_df example_lib orders_raw)) ''order_date'' = Some Text
   \<and> map_of (inferred_columns (df_head (transform_orders_df example_lib orders_raw) 0)) ''order_date'' = Some Text"
proof -
  have s: "get_col (rename_columns normalize_name orders_raw) ''order_date''
       = Some (ObjCol [Some ''2024-01-01'', Some ''2024-01-02'', Some ''soon''])"
    by (simp add: eval_defs orders_raw_def)
  have l: "0 < series_len (ObjCol [Some ''2024-01-01'', Some ''2024-01-02'', Some ''soon''])"
    by (simp add: series_len_def)
  have wf: "wf_df (rename_columns normalize_name orders_raw)"
    by (simp add: wf_df_def eval_defs orders_raw_def series_len_def)
  have dq: "basic_data_quality_checks (transform_orders_df example_lib orders_raw) REQUIRED_COLUMNS = []"
    by (simp add: transform_orders_raw orders_clean_passes_gate)
  have g: "get_col (transform_orders_df example_lib orders_raw) ''order_date'' = Some (ObjCol [Some ''2024-01-01'', None])"
    by (simp add: transform_orders_raw) (simp add: orders_clean_def get_col_def)
  from order_date_is_text [OF s, of example_lib] l
  have "map_of (inferred_columns (transform_orders_df example_lib orders_raw)) ''order_date'' = Some Text"
    "map_of (inferred_columns (df_head (transform_orders_df example_lib orders_raw) 0)) ''order_date'' = Some Text"
    by blast+
  with s l wf dq g show ?thesis by simp
qed

lemmas db_defs = load_df_to_postgres_upsert_def create_table_if_not_exists_def create_staging_table_def
  copy_df_to_table_via_copy_def attempt_cast_date_columns_def alter_column_date_def select_sample_def
  upsert_transaction_def exec_upsert_def upsert_row_def update_row_def new_row_def row_get_def
  column_values_def unique_ok_def staging_name_def inferred_columns_def df_rows_def df_head_def
  is_date_col_def castable_to_date_def cast_or_keep_def no_faults_def
  pandas_dtype_to_sqlalchemy_dtype colnames_def df_len_def lower_def char_lower_def
  example_lib_def example_dates_def opt_cell_def

lemma load_bad_dates:
  "load_df_to_postgres_upsert example_lib no_faults bad_dates ''orders_clean'' ''order_id''
       [''orders_clean'' \<mapsto> dates_sink]
   = (Inl (RuntimeError ''order_date'' (SQLError AlterDate) [StrV ''2024-01-01'', StrV ''not-a-date'']),
      [''orders_clean'' \<mapsto> dates_sink, ''orders_clean_staging'' \<mapsto> bad_staging])"
  by (simp add: db_defs bad_dates_def dates_sink_def bad_staging_def upt_rec)

subsection \<open>Date reconciliation\<close>

lemma alter_column_date_frame:
  assumes "db st = Some t" and "alter_column_date L F st c db = (r, db')"
  shows "\<exists>t'. db' = db(st \<mapsto> t') \<and> map fst (tcols t') = map fst (tcols t) \<and> tunique t' = tunique t"
proof (cases r)
  case (Inl e)
  with assms alter_column_date_error [of L F st c db e db'] have "db' = db" by simp
  with assms(1) show ?thesis by (intro exI [of _ t]) auto
next
  case (Inr u)
  with assms show ?thesis
    by (auto simp: alter_column_date_def comp_def split_def split: option.splits if_splits
        intro!: exI [of _ "t\<lparr>tcols := map (\<lambda>(n, ty). if n = c then (n, Date) else (n, ty)) (tcols t),
                  trows := map (map (\<lambda>(n, v). if n = c then (n, cast_or_keep L v) else (n, v))) (trows t)\<rparr>"])
qed

lemma cast_loop_frame:
  "db st = Some t \<Longrightarrow> cast_loop L F st cs db = (r, db') \<Longrightarrow>
   \<exists>t'. db' = db(st \<mapsto> t') \<and> map fst (tcols t') = map fst (tcols t) \<and> tunique t' = tunique t"
proof (induction cs arbitrary: db t)
  case Nil
  then show ?case by (intro exI [of _ t]) auto
next
  case (Cons c cs)
  obtain r1 db1 where a: "alter_column_date L F st c db = (r1, db1)"
    by (cases "alter_column_date L F st c db")
  from alter_column_date_frame [OF Cons.prems(1) a]
  obtain t1 where t1: "db1 = db(st \<mapsto> t1)" "map fst (tcols t1) = map fst (tcols t)" "tunique t1 = tunique t"
    by blast
  show ?case
  proof (cases r1)
    case (Inl e)
    with a Cons.prems(2) have "db' = db1" by (auto split: sum.splits)
    with t1 show ?thesis by blast
  next
    case (Inr u)
    with a Cons.prems(2) have l: "cast_loop L F st cs db1 = (r, db')" by simp
    from t1 have "db1 st = Some t1" by simp
    from Cons.IH [OF this l]
    obtain t' where t': "db' = db1(st \<mapsto> t')" "map fst (tcols t') = map fst (tcols t1)" "tunique t' = tunique t1"
      by blast
    from t'(1) t1(1) have "db' = db(st \<mapsto> t')" by simp
    with t' t1 show ?thesis by (intro exI [of _ t']) simp
  qed
qed

lemma cast_loop_append:
  "cast_loop L F st (pre @ cs) db =
     (case cast_loop L F st pre db of (Inr u, db1) \<Rightarrow> cast_loop L F st cs db1 | (Inl e, db1) \<Rightarrow> (Inl e, db1))"
  by (induction pre arbitrary: db) (auto split: prod.splits sum.splits)

lemma cast_step_error:
  assumes "db st = Some t" and "c \<in> set (map fst (tcols t))"
    and "alter_column_date L F st c db = (Inl cause, db2)"
  shows "cast_loop L F st (c # cs) db = (Inl (RuntimeError c cause (take 10 (column_values t c))), db)"
proof -
  from assms(3) have "db2 = db" by (simp add: alter_column_date_error)
  with assms show ?thesis by (simp add: select_sample_def)
qed

lemma cast_loop_error_payload:
  "db st = Some t0 \<Longrightarrow> set cs \<subseteq> set (map fst (tcols t0)) \<Longrightarrow>
   cast_loop L F st cs db = (Inl e, db') \<Longrightarrow>
   \<exists>c cause t. c \<in> set cs \<and> db' st = Some t
      \<and> alter_column_date L F st c db' = (Inl cause, db')
      \<and> e = RuntimeError c cause (take 10 (column_values t c))"
proof (induction cs arbitrary: db t0)
  case Nil
  then show ?case by simp
next
  case (Cons c cs)
  obtain r1 db1 where a: "alter_column_date L F st c db = (r1, db1)"
    by (cases "alter_column_date L F st c db")
  show ?case
  proof (cases r1)
    case (Inl cause)
    with a have a': "alter_column_date L F st c db = (Inl cause, db1)" by simp
    then have "db1 = db" by (simp add: alter_column_date_error)
    from cast_step_error [OF Cons.prems(1) _ a', of cs] Cons.prems(2,3)
    have "e = RuntimeError c cause (take 10 (column_values t0 c))" "db' = db" by auto
    with a' \<open>db1 = db\<close> Cons.prems(1) show ?thesis by (intro exI [of _ c] exI [of _ cause] exI [of _ t0]) simp
  next
    case (Inr u)
    with a Cons.prems(3) have l: "cast_loop L F st cs db1 = (Inl e, db')" by simp
    from alter_column_date_frame [OF Cons.prems(1) a]
    obtain t1 where t1: "db1 = db(st \<mapsto> t1)" "map fst (tcols t1) = map fst (tcols t0)" by blast
    then have "db1 st = Some t1" "set cs \<subseteq> set (map fst (tcols t1))"
      using Cons.prems(2) by auto
    from Cons.IH [OF this l] show ?thesis by auto
  qed
qed

text \<open>
  C6. The staging relation has the columns of the frame. Whenever the Type Reconciler
  raises, the error is the \<^verbatim>\<open>RuntimeError\<close> for a column of the frame whose name contains
  "date": it carries the name of that column, the error of the failed conversion of that
  column, and the first 10 values the column has in the staging relation at that moment.
  And when the conversion of a date column fails, after the conversions of the date columns
  before it succeeded, that error is raised for it.
\<close>

theorem date_cast_failure_payload:
  assumes "db staging = Some t0" and "set (colnames df) \<subseteq> set (map fst (tcols t0))"
  shows "(\<forall>e db'. attempt_cast_date_columns L F staging df db = (Inl e, db') \<longrightarrow>
            (\<exists>c cause t. c \<in> set (colnames df) \<and> is_date_col c \<and> db' staging = Some t
               \<and> alter_column_date L F staging c db' = (Inl cause, db')
               \<and> e = RuntimeError c cause (take 10 (column_values t c))))
       \<and> (\<forall>pre c post db1 cause db2.
            filter is_date_col (colnames df) = pre @ c # post
            \<and> cast_loop L F staging pre db = (Inr (), db1)
            \<and> alter_column_date L F staging c db1 = (Inl cause, db2)
            \<longrightarrow> (\<exists>t. db1 staging = Some t \<and> attempt_cast_date_columns L F staging df db
                    = (Inl (RuntimeError c cause (take 10 (column_values t c))), db1)))"
proof (intro conjI allI impI)
  fix e db'
  assume a: "attempt_cast_date_columns L F staging df db = (Inl e, db')"
  let ?cs = "filter is_date_col (colnames df)"
  from a have l: "cast_loop L F staging ?cs db = (Inl e, db')"
    by (auto simp: attempt_cast_date_columns_def Let_def split: if_splits)
  have "set ?cs \<subseteq> set (map fst (tcols t0))" using assms(2) by auto
  from cast_loop_error_payload [OF assms(1) this l]
  show "\<exists>c cause t. c \<in> set (colnames df) \<and> is_date_col c \<and> db' staging = Some t
               \<and> alter_column_date L F staging c db' = (Inl cause, db')
               \<and> e = RuntimeError c cause (take 10 (column_values t c))"
    by auto
next
  fix pre c post db1 cause db2
  assume h: "filter is_date_col (colnames df) = pre @ c # post
            \<and> cast_loop L F staging pre db = (Inr (), db1)
            \<and> alter_column_date L F staging c db1 = (Inl cause, db2)"
  from h have "cast_loop L F staging pre db = (Inr (), db1)" by simp
  from cast_loop_frame [where db = db and st = staging and t = t0, OF assms(1) this]
  obtain t where t: "db1 staging = Some t" "map fst (tcols t) = map fst (tcols t0)" by auto
  from h have "c \<in> set (colnames df)"
    by (metis filter_is_subset in_set_conv_decomp subsetD)
  with assms(2) t have c: "c \<in> set (map fst (tcols t))" by auto
  from h have "alter_column_date L F staging c db1 = (Inl cause, db2)" by simp
  from cast_step_error [where db = db1 and st = staging and cs = post, OF t(1) c this] h
  have "cast_loop L F staging (pre @ c # post) db
          = (Inl (RuntimeError c cause (take 10 (column_values t c))), db1)"
    by (simp add: cast_loop_append)
  with h t show "\<exists>t. db1 staging = Some t \<and> attempt_cast_date_columns L F staging df db
                    = (Inl (RuntimeError c cause (take 10 (column_values t c))), db1)"
    by (auto simp: attempt_cast_date_columns_def Let_def)
qed


theorem date_cast_failure_payload_witness:
  "[''orders_clean_staging'' \<mapsto> bad_staging] ''orders_clean_staging'' = Some bad_staging
   \<and> set (colnames bad_dates) \<subseteq> set (map fst (tcols bad_staging))
   \<and> filter is_date_col (colnames bad_dates) = [] @ ''order_date'' # []
   \<and> alter_column_date example_lib no_faults ''orders_clean_staging'' ''order_date''
         [''orders_clean_staging'' \<mapsto> bad_staging]
       = (Inl (SQLError AlterDate), [''orders_clean_staging'' \<mapsto> bad_staging])
   \<and> attempt_cast_date_columns example_lib no_faults ''orders_clean_staging'' bad_dates
         [''orders_clean_staging'' \<mapsto> bad_staging]
       = (Inl (RuntimeError ''order_date'' (SQLError AlterDate) [StrV ''2024-01-01'', StrV ''not-a-date'']),
          [''orders_clean_staging'' \<mapsto> bad_staging])"
proof -
  let ?db = "[''orders_clean_staging'' \<mapsto> bad_staging]"
  have h1: "?db ''orders_clean_staging'' = Some bad_staging" by simp
  have h2: "set (colnames bad_dates) \<subseteq> set (map fst (tcols bad_staging))"
    by (simp add: colnames_def bad_dates_def bad_staging_def)
  have f: "filter is_date_col (colnames bad_dates) = [] @ ''order_date'' # []"
    by (simp add: colnames_def bad_dates_def is_date_col_def lower_def char_lower_def)
  have l: "cast_loop example_lib no_faults ''orders_clean_staging'' [] ?db = (Inr (), ?db)" by simp
  have a: "alter_column_date example_lib no_faults ''orders_clean_staging'' ''order_date'' ?db
             = (Inl (SQLError AlterDate), ?db)"
    by (simp add: alter_column_date_def bad_staging_def column_values_def row_get_def
        castable_to_date_def no_faults_def example_lib_def example_dates_def)
  from date_cast_failure_payload [where db = ?db and staging = "''orders_clean_staging''", OF h1 h2,
      of example_lib no_faults] f l a
  obtain t where t: "?db ''orders_clean_staging'' = Some t"
    "attempt_cast_date_columns example_lib no_faults ''orders_clean_staging'' bad_dates ?db
       = (Inl (RuntimeError ''order_date'' (SQLError AlterDate) (take 10 (column_values t ''order_date''))), ?db)"
    by blast
  from t(1) have "t = bad_staging" by simp
  with t(2) have "attempt_cast_date_columns example_lib no_faults ''orders_clean_staging'' bad_dates ?db
       = (Inl (RuntimeError ''order_date'' (SQLError AlterDate) (take 10 (column_values bad_staging ''order_date''))), ?db)"
    by simp
  moreover have "take 10 (column_values bad_staging ''order_date'') = [StrV ''2024-01-01'', StrV ''not-a-date'']"
    by (simp add: column_values_def bad_staging_def row_get_def)
  ultimately have "attempt_cast_date_columns example_lib no_faults ''orders_clean_staging'' bad_dates ?db
       = (Inl (RuntimeError ''order_date'' (SQLError AlterDate) [StrV ''2024-01-01'', StrV ''not-a-date'']), ?db)"
    by simp
  with h1 h2 f a show ?thesis by blast
qed

subsection \<open>The steps of the load\<close>

lemma staging_name_neq [simp]: "staging_name tn \<noteq> tn" "tn \<noteq> staging_name tn"
  by (simp_all add: staging_name_def)

lemma ensure_target_cases:
  assumes "(if db tn = None then create_table_if_not_exists F tn d db else (Inr (), db)) = (r, db1)"
  shows "(r = Inl (SQLError CreateTarget) \<and> db1 = db)
       \<or> (r = Inr () \<and> db1 = (case db tn of
              None \<Rightarrow> db(tn \<mapsto> \<lparr>tcols = inferred_columns d, tunique = [], trows = []\<rparr>)
            | Some t \<Rightarrow> db))"
  using assms by (auto simp: create_table_if_not_exists_def split: if_splits option.splits)

lemma create_staging_table_cases:
  assumes "create_staging_table F st df db = (r, db')"
  shows "(r = Inl (SQLError DropStaging) \<and> db' = db)
       \<or> (r = Inl (SQLError CreateStaging) \<and> db' = db(st := None))
       \<or> (r = Inr () \<and> db' = db(st \<mapsto> \<lparr>tcols = inferred_columns df, tunique = [], trows = []\<rparr>))"
  using assms by (auto simp: create_staging_table_def Let_def split: if_splits)

lemma copy_cases:
  assumes "db st = Some s" and "copy_df_to_table_via_copy F df st db = (r, db')"
  shows "(r = Inl (SQLError CopyFrom) \<and> db' = db)
       \<or> (r = Inr () \<and> db' = db(st \<mapsto> s\<lparr>trows := trows s @ map (\<lambda>r. zip (map fst (tcols s)) (map snd r)) (df_rows df)\<rparr>))"
  using assms by (auto simp: copy_df_to_table_via_copy_def Let_def split: if_splits)

lemma attempt_cast_frame:
  assumes "db st = Some s" and "attempt_cast_date_columns L F st df db = (r, db')"
  shows "\<exists>s'. db' = db(st \<mapsto> s') \<and> map fst (tcols s') = map fst (tcols s) \<and> tunique s' = tunique s"
proof (cases "filter is_date_col (colnames df) = []")
  case True
  with assms show ?thesis
    by (intro exI [of _ s]) (auto simp: attempt_cast_date_columns_def)
next
  case False
  with assms(2) have "cast_loop L F st (filter is_date_col (colnames df)) db = (r, db')"
    by (simp add: attempt_cast_date_columns_def Let_def)
  from cast_loop_frame [where db = db and st = st, OF assms(1) this] show ?thesis .
qed

lemma attempt_cast_error:
  "attempt_cast_date_columns L F st df db = (Inl e, db') \<Longrightarrow>
     e = SQLError SelectSample \<or> (\<exists>c vs. e = RuntimeError c (SQLError AlterDate) vs)"
  by (auto simp: attempt_cast_date_columns_def Let_def split: if_splits dest: cast_loop_error)

lemma exec_upsert_frame:
  assumes "exec_upsert tn st cols key db = Inr db1"
  shows "\<exists>t t'. db tn = Some t \<and> db1 = db(tn \<mapsto> t') \<and> tcols t' = tcols t \<and> tunique t' = tunique t"
  using assms
  by (auto simp: exec_upsert_def Let_def split: option.splits if_splits)

lemma exec_upsert_error: "exec_upsert tn st cols key db = Inl e \<Longrightarrow> e = SQLError Upsert"
  by (auto simp: exec_upsert_def Let_def split: option.splits if_splits)

lemma upsert_transaction_cases:
  assumes "upsert_transaction F tn st cols key db = (r, db')"
  shows "(r = Inl (SQLError Upsert) \<and> db' = db)
       \<or> (r = Inl (SQLError DropFinal) \<and> db' = db)
       \<or> (\<exists>db1. r = Inr () \<and> exec_upsert tn st cols key db = Inr db1 \<and> db' = db1(st := None))"
  using assms
  by (auto simp: upsert_transaction_def split: if_splits sum.splits dest: exec_upsert_error)

text \<open>
  C1, as the code has it. A load that returns leaves no staging relation, and neither does
  one whose \<^verbatim>\<open>CREATE\<close> of the staging relation fails (the relation was dropped just before).
  A load that raises in the bulk copy, in the date coercion or in the merge transaction
  leaves the staging relation in the database: the \<^verbatim>\<open>except\<close> clause only logs and raises
  again, and the staging relation is dropped by the next load, before it creates its own.
\<close>

theorem staging_after_load:
  assumes "load_df_to_postgres_upsert L F df table_name unique_key db = (r, db')"
  shows "(r = Inr () \<longrightarrow> db' (staging_name table_name) = None)
       \<and> (r = Inl (SQLError CreateStaging) \<longrightarrow> db' (staging_name table_name) = None)
       \<and> (\<forall>e. r = Inl e \<and> (e = SQLError CopyFrom \<or> e = SQLError SelectSample
                \<or> (\<exists>c cause vs. e = RuntimeError c cause vs)
                \<or> e = SQLError Upsert \<or> e = SQLError DropFinal)
              \<longrightarrow> db' (staging_name table_name) \<noteq> None)"
proof -
  let ?st = "staging_name table_name"
  let ?P = "(r = Inr () \<longrightarrow> db' ?st = None)
       \<and> (r = Inl (SQLError CreateStaging) \<longrightarrow> db' ?st = None)
       \<and> (\<forall>e. r = Inl e \<and> (e = SQLError CopyFrom \<or> e = SQLError SelectSample
                \<or> (\<exists>c cause vs. e = RuntimeError c cause vs)
                \<or> e = SQLError Upsert \<or> e = SQLError DropFinal)
              \<longrightarrow> db' ?st \<noteq> None)"
  obtain r1 db1 where s1: "(if db table_name = None
        then create_table_if_not_exists F table_name (df_head df 0) db else (Inr (), db)) = (r1, db1)"
    by (cases "if db table_name = None
        then create_table_if_not_exists F table_name (df_head df 0) db else (Inr (), db)")
  from ensure_target_cases [OF s1] consider
    (fail1) "r1 = Inl (SQLError CreateTarget)" | (ok1) "r1 = Inr ()" by blast
  then show ?P
  proof cases
    case fail1
    with assms s1 have "r = Inl (SQLError CreateTarget)"
      by (simp add: load_df_to_postgres_upsert_def)
    then show ?thesis by simp
  next
    case ok1
    obtain r2 db2 where s2: "create_staging_table F ?st df db1 = (r2, db2)"
      by (cases "create_staging_table F ?st df db1")
    from create_staging_table_cases [OF s2] consider
      (drop) "r2 = Inl (SQLError DropStaging)"
      | (create) "r2 = Inl (SQLError CreateStaging)" "db2 = db1(?st := None)"
      | (ok2) "r2 = Inr ()" "db2 = db1(?st \<mapsto> \<lparr>tcols = inferred_columns df, tunique = [], trows = []\<rparr>)"
      by blast
    then show ?thesis
    proof cases
      case drop
      with assms s1 ok1 s2 have "r = Inl (SQLError DropStaging)"
        by (simp add: load_df_to_postgres_upsert_def)
      then show ?thesis by simp
    next
      case create
      with assms s1 ok1 s2 have "r = Inl (SQLError CreateStaging)" "db' = db2"
        by (simp_all add: load_df_to_postgres_upsert_def)
      with create show ?thesis by simp
    next
      case ok2
      then have e2: "db2 ?st = Some \<lparr>tcols = inferred_columns df, tunique = [], trows = []\<rparr>" by simp
      obtain r3 db3 where s3: "copy_df_to_table_via_copy F df ?st db2 = (r3, db3)"
        by (cases "copy_df_to_table_via_copy F df ?st db2")
      from copy_cases [OF e2 s3] consider
        (fail3) "r3 = Inl (SQLError CopyFrom)" "db3 = db2"
        | (ok3) "r3 = Inr ()" "db3 ?st \<noteq> None" by auto
      then show ?thesis
      proof cases
        case fail3
        with assms s1 ok1 s2 ok2 s3 have "r = Inl (SQLError CopyFrom)" "db' = db2"
          by (simp_all add: load_df_to_postgres_upsert_def)
        with e2 show ?thesis by simp
      next
        case ok3
        then obtain s where e3: "db3 ?st = Some s" by auto
        obtain r4 db4 where s4: "attempt_cast_date_columns L F ?st df db3 = (r4, db4)"
          by (cases "attempt_cast_date_columns L F ?st df db3")
        from attempt_cast_frame [OF e3 s4] obtain s' where e4: "db4 ?st = Some s'" by auto
        show ?thesis
        proof (cases r4)
          case (Inl e)
          with assms s1 ok1 s2 ok2 s3 ok3 s4 have "r = Inl e" "db' = db4"
            by (simp_all add: load_df_to_postgres_upsert_def)
          moreover from s4 Inl attempt_cast_error [of L F ?st df db3 e db4]
          have "e \<noteq> SQLError CreateStaging" by auto
          ultimately show ?thesis using e4 by simp
        next
          case (Inr u)
          with assms s1 ok1 s2 ok2 s3 ok3 s4
          have s5: "upsert_transaction F table_name ?st (colnames df) unique_key db4 = (r, db')"
            by (simp add: load_df_to_postgres_upsert_def)
          from upsert_transaction_cases [OF s5] e4 show ?thesis by auto
        qed
      qed
    qed
  qed
qed

text \<open>
  C1 as stated fails: the load of a frame with an unreadable date raises in the date
  coercion, and the staging relation is still there.
\<close>

theorem staging_after_load_counterexample:
  "snd (load_df_to_postgres_upsert example_lib no_faults bad_dates ''orders_clean'' ''order_id''
          [''orders_clean'' \<mapsto> dates_sink]) (staging_name ''orders_clean'') \<noteq> None"
  by (simp add: load_bad_dates staging_name_def)

lemma load_orders_clean:
  "load_df_to_postgres_upsert example_lib no_faults orders_clean TARGET_TABLE UNIQUE_KEY
       [TARGET_TABLE \<mapsto> orders_sink]
   = (Inr (),
      [TARGET_TABLE \<mapsto> orders_sink\<lparr>trows :=
         [[(''order_id'', FloatV 1), (''user_id'', IntV 10), (''product_id'', IntV 100),
           (''quantity'', IntV 3), (''price'', FloatV (5 / 2)),
           (''order_date'', TsV 1704067200000000000), (''total_price'', FloatV (15 / 2))],
          [(''order_id'', FloatV 2), (''user_id'', IntV 12), (''product_id'', IntV 102),
           (''quantity'', IntV 0), (''price'', FloatV (5 / 2)),
           (''order_date'', Null), (''total_price'', FloatV 0)]]\<rparr>])"
  by (simp add: db_defs orders_clean_def orders_sink_def upt_rec TARGET_TABLE_def UNIQUE_KEY_def
      fun_upd_twist Let_def)

theorem staging_after_load_witness:
  "fst (load_df_to_postgres_upsert example_lib no_faults orders_clean TARGET_TABLE UNIQUE_KEY
          [TARGET_TABLE \<mapsto> orders_sink]) = Inr ()
   \<and> snd (load_df_to_postgres_upsert example_lib no_faults orders_clean TARGET_TABLE UNIQUE_KEY
          [TARGET_TABLE \<mapsto> orders_sink]) (staging_name TARGET_TABLE) = None"
proof -
  obtain r db' where l: "load_df_to_postgres_upsert example_lib no_faults orders_clean TARGET_TABLE UNIQUE_KEY
          [TARGET_TABLE \<mapsto> orders_sink] = (r, db')"
    by (cases "load_df_to_postgres_upsert example_lib no_faults orders_clean TARGET_TABLE UNIQUE_KEY
          [TARGET_TABLE \<mapsto> orders_sink]")
  with load_orders_clean have r: "r = Inr ()" by simp
  with staging_after_load [OF l] have "db' (staging_name TARGET_TABLE) = None" by simp
  with l r show ?thesis by simp
qed

subsection \<open>Whole records are dropped\<close>

lemma filter_mask_zip:
  "filter_mask (map P ks) xs = map snd (filter (\<lambda>(k, v). P k) (zip ks xs))"
proof (induction ks arbitrary: xs)
  case Nil
  then show ?case by simp
next
  case (Cons k ks)
  then show ?case by (cases xs) simp_all
qed

lemma filter_mask_nth:
  "length m = length xs \<Longrightarrow> filter_mask m xs = map (nth xs) (filter (nth m) [0 ..< length xs])"
proof (induction m xs rule: list_induct2)
  case Nil
  then show ?case by simp
next
  case (Cons b m x xs)
  have u: "[0 ..< length (x # xs)] = 0 # map Suc [0 ..< length xs]"
    by (simp add: upt_conv_Cons map_Suc_upt del: upt_Suc)
  have f: "filter (nth (c # m)) (map Suc l) = map Suc (filter (nth m) l)" for c l
    by (simp add: filter_map comp_def)
  from Cons.IH show ?case unfolding u by (simp add: f comp_def del: upt_Suc)
qed

lemma length_filter_zip_fst:
  "length xs = length ys \<Longrightarrow> length (filter (\<lambda>(k, v). P k) (zip xs ys)) = length (filter P xs)"
  by (induction xs ys rule: list_induct2) simp_all

lemma colnames_transform: "colnames (transform_orders_df L df) = colnames (derived_frame L df)"
  by (simp add: transform_orders_df_derived reset_index_def dropna_subset_def colnames_def
      comp_def case_prod_beta split: option.splits)

lemma df_index_transform:
  assumes "get_col (derived_frame L df) UNIQUE_KEY = Some k0"
  shows "df_index (transform_orders_df L df) =
     [0 ..< length (filter (\<lambda>(kc, i). kc \<noteq> Null) (zip (cells k0) (df_index df)))]"
proof -
  from assms have "UNIQUE_KEY \<in> set (colnames (derived_frame L df))"
    using get_col_None_iff [of "derived_frame L df" UNIQUE_KEY] by simp
  with assms show ?thesis
    by (simp add: transform_orders_df_derived reset_index_def dropna_subset_def df_len_def
        df_index_derived_frame notna_def filter_mask_zip)
qed

lemma row_get_df_row:
  "row_get (map (\<lambda>(n, s). (n, cells s ! i)) (df_columns d)) c =
     (case get_col d c of None \<Rightarrow> Null | Some s \<Rightarrow> cells s ! i)"
proof -
  have "map_of (map (\<lambda>(n, s). (n, cells s ! i)) xs) c = map_option (\<lambda>s. cells s ! i) (map_of xs c)"
    for xs :: "(string \<times> series) list"
    by (induction xs) auto
  then show ?thesis by (simp add: row_get_def get_col_def split: option.splits)
qed

text \<open>
  The records of the frame after the drop are the records with a key of the frame before
  it, in their order.
\<close>

lemma df_rows_dropna:
  assumes wf: "wf_df d" and k0: "get_col d key = Some k0"
  shows "df_rows (reset_index (dropna_subset d key)) = filter (\<lambda>r. row_get r key \<noteq> Null) (df_rows d)"
proof -
  let ?N = "df_len d"
  let ?m = "notna k0"
  let ?I = "filter (nth ?m) [0 ..< ?N]"
  let ?row = "\<lambda>d i. map (\<lambda>(n, s). (n, cells s ! i)) (df_columns d)"
  let ?out = "reset_index (dropna_subset d key)"
  have lm: "length ?m = ?N"
    using wf_df_series_len [OF wf k0] by (simp add: notna_def series_len_def)
  have col: "cells (filter_series ?m s) = map (nth (cells s)) ?I" if "(n, s) \<in> set (df_columns d)" for n s
  proof -
    from wf that have "length (cells s) = ?N"
      by (auto simp: wf_df_def list_all_iff series_len_def)
    with lm filter_mask_nth [of ?m "cells s"] show ?thesis
      by (simp add: cells_filter_series)
  qed
  have len: "df_len ?out = length ?I"
  proof -
    have o: "df_len ?out = length (filter_mask ?m (df_index d))"
      using k0 by (simp add: reset_index_def dropna_subset_def df_len_def)
    from lm have "length ?m = length (df_index d)" by (simp add: df_len_def)
    from filter_mask_nth [OF this]
    have "length (filter_mask ?m (df_index d)) = length (filter (nth ?m) [0 ..< length (df_index d)])"
      by simp
    with o show ?thesis by (simp add: df_len_def)
  qed
  have cols: "df_columns ?out = map (\<lambda>(n, s). (n, filter_series ?m s)) (df_columns d)"
    using k0 by (simp add: reset_index_def dropna_subset_def)
  have row: "?row ?out j = ?row d (?I ! j)" if j: "j < length ?I" for j
  proof -
    have "map (\<lambda>(n, s). (n, cells s ! j)) (map (\<lambda>(n, s). (n, filter_series ?m s)) (df_columns d))
        = map (\<lambda>(n, s). (n, cells s ! (?I ! j))) (df_columns d)"
      unfolding map_map
    proof (rule map_cong [OF refl])
      fix x assume x: "x \<in> set (df_columns d)"
      obtain n s where ns: "x = (n, s)" by (cases x)
      from col [of n s] x ns have "cells (filter_series ?m s) = map (nth (cells s)) ?I" by simp
      with j ns show "((\<lambda>(n, s). (n, cells s ! j)) \<circ> (\<lambda>(n, s). (n, filter_series ?m s))) x
          = (\<lambda>(n, s). (n, cells s ! (?I ! j))) x"
        by simp
    qed
    then show ?thesis by (simp only: cols)
  qed
  have "df_rows ?out = map (\<lambda>j. ?row d (?I ! j)) [0 ..< length ?I]"
    unfolding df_rows_def len using row by (intro map_cong [OF refl]) simp
  also have "\<dots> = map (?row d) (map (nth ?I) [0 ..< length ?I])" by (simp add: comp_def)
  also have "\<dots> = map (?row d) ?I" by (simp only: map_nth)
  also have "\<dots> = filter (\<lambda>r. row_get r key \<noteq> Null) (map (?row d) [0 ..< ?N])"
  proof -
    have "(row_get (?row d i) key \<noteq> Null) = ?m ! i" if "i < ?N" for i
      using that lm k0 by (simp add: row_get_df_row notna_def)
    then have "filter (\<lambda>i. row_get (?row d i) key \<noteq> Null) [0 ..< ?N] = ?I"
      by (intro filter_cong [OF refl]) simp
    then show ?thesis by (simp add: filter_map comp_def)
  qed
  finally show ?thesis by (simp add: df_rows_def)
qed

text \<open>
  C8. Whenever the output of the Transformer has the unique-key column, that column has no
  null. The output has the columns of the frame before the drop, and every column is
  filtered by the same test: the entry of a record stays exactly when the key of that
  record is not null, so records are dropped whole and the others keep their values and
  their order (for a well-formed frame: the records of the output are the records with a
  key of the frame before the drop). The row labels of the output are \<open>0, 1, ..., n - 1\<close>,
  with \<open>n\<close> the number of records that have a key.
\<close>

theorem transform_drops_null_keys:
  "get_col (transform_orders_df L df) UNIQUE_KEY = Some k \<Longrightarrow>
     Null \<notin> set (cells k)
     \<and> (\<exists>k0. get_col (derived_frame L df) UNIQUE_KEY = Some k0
             \<and> cells k = filter (\<lambda>c. c \<noteq> Null) (cells k0)
             \<and> colnames (transform_orders_df L df) = colnames (derived_frame L df)
             \<and> (\<forall>n s. get_col (derived_frame L df) n = Some s \<longrightarrow>
                  (\<exists>s'. get_col (transform_orders_df L df) n = Some s'
                      \<and> dtype_of s' = dtype_of s
                      \<and> cells s' = map snd (filter (\<lambda>(kc, v). kc \<noteq> Null) (zip (cells k0) (cells s)))))
             \<and> df_index (transform_orders_df L df) =
                 [0 ..< length (filter (\<lambda>(kc, i). kc \<noteq> Null) (zip (cells k0) (df_index df)))]
             \<and> (wf_df (derived_frame L df) \<longrightarrow>
                  df_rows (transform_orders_df L df) =
                    filter (\<lambda>r. row_get r UNIQUE_KEY \<noteq> Null) (df_rows (derived_frame L df))
                  \<and> df_index (transform_orders_df L df) = [0 ..< length (cells k)]))
     \<and> df_index (transform_orders_df L df) = [0 ..< df_len (transform_orders_df L df)]"
proof -
  let ?d = "derived_frame L df"
  let ?out = "transform_orders_df L df"
  assume a: "get_col ?out UNIQUE_KEY = Some k"
  then obtain k0 where k0: "get_col ?d UNIQUE_KEY = Some k0"
    by (cases "get_col ?d UNIQUE_KEY") (simp_all add: transform_get_col)
  with a have k: "k = filter_series (notna k0) k0"
    by (simp add: transform_get_col)
  then have c: "cells k = filter (\<lambda>c. c \<noteq> Null) (cells k0)"
    by (simp add: cells_dropna_key)
  then have n: "Null \<notin> set (cells k)" by simp
  have col: "\<exists>s'. get_col ?out n = Some s' \<and> dtype_of s' = dtype_of s
        \<and> cells s' = map snd (filter (\<lambda>(kc, v). kc \<noteq> Null) (zip (cells k0) (cells s)))"
    if "get_col ?d n = Some s" for n s
    using that k0
    by (intro exI [of _ "filter_series (notna k0) s"])
       (simp add: transform_get_col dtype_of_filter_series cells_filter_series notna_def filter_mask_zip)
  have in_cols: "UNIQUE_KEY \<in> set (colnames ?d)"
    using k0 get_col_None_iff [of ?d UNIQUE_KEY] by simp
  have rows: "df_rows ?out = filter (\<lambda>r. row_get r UNIQUE_KEY \<noteq> Null) (df_rows ?d)"
       "df_index ?out = [0 ..< length (cells k)]" if wf: "wf_df ?d"
  proof -
    from in_cols have o: "?out = reset_index (dropna_subset ?d UNIQUE_KEY)"
      by (simp add: transform_orders_df_derived)
    show "df_rows ?out = filter (\<lambda>r. row_get r UNIQUE_KEY \<noteq> Null) (df_rows ?d)"
      unfolding o by (rule df_rows_dropna [OF wf k0])
    have l: "length (cells k0) = length (df_index df)"
      using wf_df_series_len [OF wf k0]
      by (simp add: series_len_def df_len_def df_index_derived_frame)
    from length_filter_zip_fst [OF l, of "\<lambda>c. c \<noteq> Null"] c
    show "df_index ?out = [0 ..< length (cells k)]"
      by (simp add: df_index_transform [OF k0])
  qed
  have inner: "\<exists>k0. get_col ?d UNIQUE_KEY = Some k0
             \<and> cells k = filter (\<lambda>c. c \<noteq> Null) (cells k0)
             \<and> colnames ?out = colnames ?d
             \<and> (\<forall>n s. get_col ?d n = Some s \<longrightarrow>
                  (\<exists>s'. get_col ?out n = Some s'
                      \<and> dtype_of s' = dtype_of s
                      \<and> cells s' = map snd (filter (\<lambda>(kc, v). kc \<noteq> Null) (zip (cells k0) (cells s)))))
             \<and> df_index ?out =
                 [0 ..< length (filter (\<lambda>(kc, i). kc \<noteq> Null) (zip (cells k0) (df_index df)))]
             \<and> (wf_df ?d \<longrightarrow>
                  df_rows ?out = filter (\<lambda>r. row_get r UNIQUE_KEY \<noteq> Null) (df_rows ?d)
                  \<and> df_index ?out = [0 ..< length (cells k)])"
  proof (rule exI [of _ k0], intro conjI allI impI)
    show "get_col ?d UNIQUE_KEY = Some k0" by (rule k0)
    show "cells k = filter (\<lambda>c. c \<noteq> Null) (cells k0)" by (rule c)
    show "colnames ?out = colnames ?d" by (rule colnames_transform)
    show "\<exists>s'. get_col ?out n = Some s' \<and> dtype_of s' = dtype_of s
        \<and> cells s' = map snd (filter (\<lambda>(kc, v). kc \<noteq> Null) (zip (cells k0) (cells s)))"
      if "get_col ?d n = Some s" for n s
      using that by (rule col)
    show "df_index ?out = [0 ..< length (filter (\<lambda>(kc, i). kc \<noteq> Null) (zip (cells k0) (df_index df)))]"
      by (rule df_index_transform [OF k0])
    show "df_rows ?out = filter (\<lambda>r. row_get r UNIQUE_KEY \<noteq> Null) (df_rows ?d)" if "wf_df ?d"
      using that by (rule rows(1))
    show "df_index ?out = [0 ..< length (cells k)]" if "wf_df ?d"
      using that by (rule rows(2))
  qed
  from n inner transform_index [of L df] show ?thesis
    by (intro conjI)
qed

theorem transform_drops_null_keys_witness:
  "get_col (transform_orders_df example_lib orders_raw) UNIQUE_KEY = Some (FloatCol [Some 1, Some 2])
   \<and> Null \<notin> set (cells (FloatCol [Some 1, Some 2]))
   \<and> get_col (derived_frame example_lib orders_raw) UNIQUE_KEY = Some (FloatCol [Some 1, None, Some 2])
   \<and> get_col (derived_frame example_lib orders_raw) ''user_id'' = Some (IntCol [10, 11, 12])
   \<and> get_col (transform_orders_df example_lib orders_raw) ''user_id'' = Some (IntCol [10, 12])
   \<and> wf_df (derived_frame example_lib orders_raw)
   \<and> df_rows (transform_orders_df example_lib orders_raw) =
       filter (\<lambda>r. row_get r UNIQUE_KEY \<noteq> Null) (df_rows (derived_frame example_lib orders_raw))
   \<and> df_index (transform_orders_df example_lib orders_raw) = [0, 1]"
proof -
  have h: "get_col (transform_orders_df example_lib orders_raw) UNIQUE_KEY = Some (FloatCol [Some 1, Some 2])"
    by (simp add: transform_orders_raw) (simp add: orders_clean_def get_col_def UNIQUE_KEY_def)
  have d: "get_col (derived_frame example_lib orders_raw) UNIQUE_KEY = Some (FloatCol [Some 1, None, Some 2])"
    and u: "get_col (derived_frame example_lib orders_raw) ''user_id'' = Some (IntCol [10, 11, 12])"
    by (simp_all add: derived_frame_def eval_defs orders_raw_def)
  have w: "wf_df (derived_frame example_lib orders_raw)"
    by (simp add: derived_frame_def eval_defs orders_raw_def wf_df_def series_len_def)
  from transform_drops_null_keys [OF h] obtain k0 where
        k0: "get_col (derived_frame example_lib orders_raw) UNIQUE_KEY = Some k0"
    and cols: "\<forall>n s. get_col (derived_frame example_lib orders_raw) n = Some s \<longrightarrow>
                  (\<exists>s'. get_col (transform_orders_df example_lib orders_raw) n = Some s'
                      \<and> dtype_of s' = dtype_of s
                      \<and> cells s' = map snd (filter (\<lambda>(kc, v). kc \<noteq> Null) (zip (cells k0) (cells s))))"
    and rows: "wf_df (derived_frame example_lib orders_raw) \<longrightarrow>
                  df_rows (transform_orders_df example_lib orders_raw) =
                    filter (\<lambda>r. row_get r UNIQUE_KEY \<noteq> Null) (df_rows (derived_frame example_lib orders_raw))
                  \<and> df_index (transform_orders_df example_lib orders_raw) = [0 ..< length (cells (FloatCol [Some 1, Some 2]))]"
    by blast
  from cols u obtain s' where s': "get_col (transform_orders_df example_lib orders_raw) ''user_id'' = Some s'"
      "dtype_of s' = Int64"
      "cells s' = map snd (filter (\<lambda>(kc, v). kc \<noteq> Null) (zip (cells k0) (cells (IntCol [10, 11, 12]))))"
    by fastforce
  from k0 d have "k0 = FloatCol [Some 1, None, Some 2]" by simp
  with s'(3) have "cells s' = [IntV 10, IntV 12]" by (simp add: opt_cell_def)
  with s'(2) have "s' = IntCol [10, 12]" by (cases s') (auto simp: map_eq_Cons_conv)
  with s'(1) h d u w rows show ?thesis by (simp add: upt_rec opt_cell_def)
qed

subsection \<open>The coerced values\<close>

lemma list_all_is_int_num:
  "list_all is_int_num (map (parse_obj L) xs) \<longleftrightarrow> (\<forall>x \<in> set xs. \<exists>m. parse_obj L x = Some (NInt m))"
proof -
  have "is_int_num y \<longleftrightarrow> (\<exists>m. y = Some (NInt m))" for y
    by (cases y rule: is_int_num.cases) simp_all
  then show ?thesis by (simp add: list_all_iff)
qed

text \<open>What the coercion makes of an entry of the quantity column, for each dtype.\<close>

lemma quantity_entry:
  assumes "i < series_len q"
  shows "astype_int (fillna_zero (to_numeric L q)) ! i =
     (case q of
        IntCol xs \<Rightarrow> xs ! i
      | FloatCol xs \<Rightarrow> (case xs ! i of None \<Rightarrow> 0 | Some r \<Rightarrow> f2i r)
      | BoolCol xs \<Rightarrow> (if xs ! i then 1 else 0)
      | DtCol xs \<Rightarrow> (case xs ! i of None \<Rightarrow> INT64_MIN | Some t \<Rightarrow> t)
      | ObjCol xs \<Rightarrow>
          (case parse_obj L (xs ! i) of
             None \<Rightarrow> 0
           | Some (NFloat r) \<Rightarrow> f2i r
           | Some (NInt n) \<Rightarrow>
               if \<forall>x \<in> set xs. \<exists>m. parse_obj L x = Some (NInt m) then n else f2i (i2f L n)))"
proof (cases q)
  case (ObjCol xs)
  with assms have "i < length xs" by (simp add: series_len_def)
  from quantity_of_object [OF this, of L, unfolded list_all_is_int_num] ObjCol show ?thesis
    by (simp del: to_numeric.simps)
next
  case (FloatCol xs)
  with assms show ?thesis by (simp add: series_len_def split: option.splits)
qed (use assms in \<open>simp_all add: series_len_def\<close>)

text \<open>The same for the price column, which keeps its numeric dtype.\<close>

lemma price_entry:
  assumes "i < series_len p"
  shows "cells (series_of_numeric (fillna_zero (to_numeric L p))) ! i =
     (case p of
        IntCol xs \<Rightarrow> IntV (xs ! i)
      | FloatCol xs \<Rightarrow> (case xs ! i of None \<Rightarrow> FloatV 0 | Some r \<Rightarrow> FloatV r)
      | BoolCol xs \<Rightarrow> BoolV (xs ! i)
      | DtCol xs \<Rightarrow> IntV (case xs ! i of None \<Rightarrow> INT64_MIN | Some t \<Rightarrow> t)
      | ObjCol xs \<Rightarrow>
          (if \<forall>x \<in> set xs. \<exists>m. parse_obj L x = Some (NInt m)
           then (case parse_obj L (xs ! i) of Some (NInt n) \<Rightarrow> IntV n | _ \<Rightarrow> IntV 0)
           else (case parse_obj L (xs ! i) of
                   None \<Rightarrow> FloatV 0
                 | Some (NInt n) \<Rightarrow> FloatV (i2f L n)
                 | Some (NFloat r) \<Rightarrow> FloatV r)))"
proof (cases p)
  case (ObjCol xs)
  with assms have i: "i < length xs" by (simp add: series_len_def)
  note po = price_of_object [of L xs, unfolded list_all_is_int_num]
  show ?thesis
  proof (cases "\<forall>x \<in> set xs. \<exists>m. parse_obj L x = Some (NInt m)")
    case True
    with i obtain m where "parse_obj L (xs ! i) = Some (NInt m)" by force
    with True i ObjCol show ?thesis
      by (simp add: po del: to_numeric.simps)
  next
    case False
    with i ObjCol show ?thesis
      by (simp add: po opt_cell_def del: to_numeric.simps split: option.splits pynum.splits)
  qed
next
  case (FloatCol xs)
  with assms show ?thesis by (simp add: series_len_def opt_cell_def split: option.splits)
next
  case (DtCol xs)
  with assms show ?thesis by (simp add: series_len_def split: option.splits)
qed (use assms in \<open>simp_all add: series_len_def\<close>)

text \<open>
  C7. When the frame has a quantity and a price column (after the normalisation of the
  names), the frame before the drop of the records without a key has
  \<^item> an int64 quantity column \<open>qs0\<close>: an int64 quantity stays as it is, a float is truncated,
    NaN is 0, a boolean is 0 or 1, a string that reads as a number is that number (as
    int64), and a string that does not read as a number, or a missing entry, is the
    integer 0;
  \<^item> a numeric price column \<open>pn0\<close> without NaN: an int64, float or boolean price stays as it
    is, NaN is 0.0, a string that reads as a number is that number, and a string that does
    not, or a missing entry, is the float 0.0 (a column of integer strings only is int64);
  \<^item> a total_price column that is their product, record by record (int64 times int64 or
    bool in wrapping int64 arithmetic, int64 times float64 as the float product).
  The output of the Transformer has these three columns, restricted to the records with a
  key, and its total_price is the product of its quantity and its price.
\<close>

theorem derived_total_price:
  assumes "get_col (rename_columns normalize_name df) ''quantity'' = Some q"
    and "get_col (rename_columns normalize_name df) ''price'' = Some p"
  shows "\<exists>qs pn qs0 pn0.
      get_col (transform_orders_df L df) ''quantity'' = Some (IntCol qs)
    \<and> get_col (transform_orders_df L df) ''price'' = Some (series_of_numeric pn)
    \<and> get_col (transform_orders_df L df) ''total_price'' = Some (series_of_numeric (mul_int_numeric L qs pn))
    \<and> (\<forall>i. i < length qs \<and> i < length (cells (series_of_numeric pn)) \<longrightarrow>
          cells (series_of_numeric (mul_int_numeric L qs pn)) ! i =
            (case cells (series_of_numeric pn) ! i of
               IntV n \<Rightarrow> IntV (qs ! i * n)
             | FloatV x \<Rightarrow> FloatV (fmul L (i2f L (qs ! i)) x)
             | BoolV b \<Rightarrow> IntV (if b then qs ! i else 0)
             | _ \<Rightarrow> Null))
    \<and> Null \<notin> set (cells (series_of_numeric pn))
    \<and> IntCol qs = keep_keyed L df (IntCol qs0)
    \<and> series_of_numeric pn = keep_keyed L df (series_of_numeric pn0)
    \<and> get_col (derived_frame L df) ''quantity'' = Some (IntCol qs0)
    \<and> get_col (derived_frame L df) ''price'' = Some (series_of_numeric pn0)
    \<and> get_col (derived_frame L df) ''total_price'' = Some (series_of_numeric (mul_int_numeric L qs0 pn0))
    \<and> length qs0 = series_len q
    \<and> length (cells (series_of_numeric pn0)) = series_len p
    \<and> (\<forall>i < series_len q.
          qs0 ! i =
            (case q of
               IntCol xs \<Rightarrow> xs ! i
             | FloatCol xs \<Rightarrow> (case xs ! i of None \<Rightarrow> 0 | Some r \<Rightarrow> f2i r)
             | BoolCol xs \<Rightarrow> (if xs ! i then 1 else 0)
             | DtCol xs \<Rightarrow> (case xs ! i of None \<Rightarrow> INT64_MIN | Some t \<Rightarrow> t)
             | ObjCol xs \<Rightarrow>
                 (case parse_obj L (xs ! i) of
                    None \<Rightarrow> 0
                  | Some (NFloat r) \<Rightarrow> f2i r
                  | Some (NInt n) \<Rightarrow>
                      if \<forall>x \<in> set xs. \<exists>m. parse_obj L x = Some (NInt m) then n else f2i (i2f L n))))
    \<and> (\<forall>i < series_len p.
          cells (series_of_numeric pn0) ! i =
            (case p of
               IntCol xs \<Rightarrow> IntV (xs ! i)
             | FloatCol xs \<Rightarrow> (case xs ! i of None \<Rightarrow> FloatV 0 | Some r \<Rightarrow> FloatV r)
             | BoolCol xs \<Rightarrow> BoolV (xs ! i)
             | DtCol xs \<Rightarrow> IntV (case xs ! i of None \<Rightarrow> INT64_MIN | Some t \<Rightarrow> t)
             | ObjCol xs \<Rightarrow>
                 (if \<forall>x \<in> set xs. \<exists>m. parse_obj L x = Some (NInt m)
                  then (case parse_obj L (xs ! i) of Some (NInt n) \<Rightarrow> IntV n | _ \<Rightarrow> IntV 0)
                  else (case parse_obj L (xs ! i) of
                          None \<Rightarrow> FloatV 0
                        | Some (NInt n) \<Rightarrow> FloatV (i2f L n)
                        | Some (NFloat r) \<Rightarrow> FloatV r))))
    \<and> (\<forall>i. i < length qs0 \<and> i < length (cells (series_of_numeric pn0)) \<longrightarrow>
          cells (series_of_numeric (mul_int_numeric L qs0 pn0)) ! i =
            (case cells (series_of_numeric pn0) ! i of
               IntV n \<Rightarrow> IntV (qs0 ! i * n)
             | FloatV x \<Rightarrow> FloatV (fmul L (i2f L (qs0 ! i)) x)
             | BoolV b \<Rightarrow> IntV (if b then qs0 ! i else 0)
             | _ \<Rightarrow> Null))
    \<and> (\<forall>xs i. q = ObjCol xs \<and> i < length xs \<and> parse_obj L (xs ! i) = None \<longrightarrow> qs0 ! i = 0)
    \<and> (\<forall>xs i. p = ObjCol xs \<and> i < length xs \<and> parse_obj L (xs ! i) = None \<longrightarrow>
          cells (series_of_numeric pn0) ! i = FloatV 0)"
proof -
  let ?q0 = "astype_int (fillna_zero (to_numeric L q))"
  let ?p0 = "fillna_zero (to_numeric L p)"
  let ?out = "transform_orders_df L df"
  from keep_keyed_product [of L df ?q0 ?p0 L]
  obtain qs pn where k: "keep_keyed L df (IntCol ?q0) = IntCol qs"
      "keep_keyed L df (series_of_numeric ?p0) = series_of_numeric pn"
      "keep_keyed L df (series_of_numeric (mul_int_numeric L ?q0 ?p0)) = series_of_numeric (mul_int_numeric L qs pn)"
    by blast
  note d = derived_frame_numeric [OF assms, of L]
  have 1: "get_col ?out ''quantity'' = Some (IntCol qs)"
    and 2: "get_col ?out ''price'' = Some (series_of_numeric pn)"
    and 3: "get_col ?out ''total_price'' = Some (series_of_numeric (mul_int_numeric L qs pn))"
    using d k by (simp_all add: transform_get_col_keep)
  have 4: "Null \<notin> set (cells (series_of_numeric pn))"
    using cells_keep_keyed_subset [of L df "series_of_numeric ?p0"] cells_fillna_zero_not_Null [of "to_numeric L p"]
    unfolding k(2) by blast
  have 5: "\<forall>xs i. q = ObjCol xs \<and> i < length xs \<and> parse_obj L (xs ! i) = None \<longrightarrow> ?q0 ! i = 0"
  proof (intro allI impI, elim conjE)
    fix xs i assume "q = ObjCol xs" and "i < length xs" and "parse_obj L (xs ! i) = None"
    with quantity_of_object [of i xs L] show "?q0 ! i = 0" by simp
  qed
  have 6: "\<forall>xs i. p = ObjCol xs \<and> i < length xs \<and> parse_obj L (xs ! i) = None \<longrightarrow>
          cells (series_of_numeric ?p0) ! i = FloatV 0"
  proof (intro allI impI, elim conjE)
    fix xs i assume p: "p = ObjCol xs" and i: "i < length xs" and n: "parse_obj L (xs ! i) = None"
    from i n have "\<not> list_all is_int_num (map (parse_obj L) xs)"
      by (auto simp: list_all_length)
    with p i n show "cells (series_of_numeric ?p0) ! i = FloatV 0"
      by (simp add: price_of_object opt_cell_def)
  qed
  have 7: "\<forall>i. i < length qs \<and> i < length (cells (series_of_numeric pn)) \<longrightarrow>
          cells (series_of_numeric (mul_int_numeric L qs pn)) ! i =
            (case cells (series_of_numeric pn) ! i of
               IntV n \<Rightarrow> IntV (qs ! i * n)
             | FloatV x \<Rightarrow> FloatV (fmul L (i2f L (qs ! i)) x)
             | BoolV b \<Rightarrow> IntV (if b then qs ! i else 0)
             | _ \<Rightarrow> Null)"
    using product_nth [of _ qs pn L] by blast
  have 8: "\<forall>i. i < length ?q0 \<and> i < length (cells (series_of_numeric ?p0)) \<longrightarrow>
          cells (series_of_numeric (mul_int_numeric L ?q0 ?p0)) ! i =
            (case cells (series_of_numeric ?p0) ! i of
               IntV n \<Rightarrow> IntV (?q0 ! i * n)
             | FloatV x \<Rightarrow> FloatV (fmul L (i2f L (?q0 ! i)) x)
             | BoolV b \<Rightarrow> IntV (if b then ?q0 ! i else 0)
             | _ \<Rightarrow> Null)"
    using product_nth [of _ ?q0 ?p0 L] by blast
  show ?thesis
  proof (rule exI [of _ qs], rule exI [of _ pn], rule exI [of _ ?q0], rule exI [of _ ?p0],
      intro conjI)
    show "get_col ?out ''quantity'' = Some (IntCol qs)" by (rule 1)
    show "get_col ?out ''price'' = Some (series_of_numeric pn)" by (rule 2)
    show "get_col ?out ''total_price'' = Some (series_of_numeric (mul_int_numeric L qs pn))" by (rule 3)
    show "\<forall>i. i < length qs \<and> i < length (cells (series_of_numeric pn)) \<longrightarrow>
          cells (series_of_numeric (mul_int_numeric L qs pn)) ! i =
            (case cells (series_of_numeric pn) ! i of
               IntV n \<Rightarrow> IntV (qs ! i * n)
             | FloatV x \<Rightarrow> FloatV (fmul L (i2f L (qs ! i)) x)
             | BoolV b \<Rightarrow> IntV (if b then qs ! i else 0)
             | _ \<Rightarrow> Null)" by (rule 7)
    show "Null \<notin> set (cells (series_of_numeric pn))" by (rule 4)
    show "IntCol qs = keep_keyed L df (IntCol ?q0)" by (rule k(1) [symmetric])
    show "series_of_numeric pn = keep_keyed L df (series_of_numeric ?p0)" by (rule k(2) [symmetric])
    show "get_col (derived_frame L df) ''quantity'' = Some (IntCol ?q0)" by (rule d(1))
    show "get_col (derived_frame L df) ''price'' = Some (series_of_numeric ?p0)" by (rule d(2))
    show "get_col (derived_frame L df) ''total_price'' = Some (series_of_numeric (mul_int_numeric L ?q0 ?p0))"
      by (rule d(3))
    show "length ?q0 = series_len q" by (rule length_astype_int_to_numeric)
    show "length (cells (series_of_numeric ?p0)) = series_len p" by (rule length_price_cells)
    show "\<forall>i < series_len q.
          ?q0 ! i =
            (case q of
               IntCol xs \<Rightarrow> xs ! i
             | FloatCol xs \<Rightarrow> (case xs ! i of None \<Rightarrow> 0 | Some r \<Rightarrow> f2i r)
             | BoolCol xs \<Rightarrow> (if xs ! i then 1 else 0)
             | DtCol xs \<Rightarrow> (case xs ! i of None \<Rightarrow> INT64_MIN | Some t \<Rightarrow> t)
             | ObjCol xs \<Rightarrow>
                 (case parse_obj L (xs ! i) of
                    None \<Rightarrow> 0
                  | Some (NFloat r) \<Rightarrow> f2i r
                  | Some (NInt n) \<Rightarrow>
                      if \<forall>x \<in> set xs. \<exists>m. parse_obj L x = Some (NInt m) then n else f2i (i2f L n)))"
      using quantity_entry [of _ q L] by blast
    show "\<forall>i < series_len p.
          cells (series_of_numeric ?p0) ! i =
            (case p of
               IntCol xs \<Rightarrow> IntV (xs ! i)
             | FloatCol xs \<Rightarrow> (case xs ! i of None \<Rightarrow> FloatV 0 | Some r \<Rightarrow> FloatV r)
             | BoolCol xs \<Rightarrow> BoolV (xs ! i)
             | DtCol xs \<Rightarrow> IntV (case xs ! i of None \<Rightarrow> INT64_MIN | Some t \<Rightarrow> t)
             | ObjCol xs \<Rightarrow>
                 (if \<forall>x \<in> set xs. \<exists>m. parse_obj L x = Some (NInt m)
                  then (case parse_obj L (xs ! i) of Some (NInt n) \<Rightarrow> IntV n | _ \<Rightarrow> IntV 0)
                  else (case parse_obj L (xs ! i) of
                          None \<Rightarrow> FloatV 0
                        | Some (NInt n) \<Rightarrow> FloatV (i2f L n)
                        | Some (NFloat r) \<Rightarrow> FloatV r)))"
      using price_entry [of _ p L] by blast
    show "\<forall>i. i < length ?q0 \<and> i < length (cells (series_of_numeric ?p0)) \<longrightarrow>
          cells (series_of_numeric (mul_int_numeric L ?q0 ?p0)) ! i =
            (case cells (series_of_numeric ?p0) ! i of
               IntV n \<Rightarrow> IntV (?q0 ! i * n)
             | FloatV x \<Rightarrow> FloatV (fmul L (i2f L (?q0 ! i)) x)
             | BoolV b \<Rightarrow> IntV (if b then ?q0 ! i else 0)
             | _ \<Rightarrow> Null)" by (rule 8)
    show "\<forall>xs i. q = ObjCol xs \<and> i < length xs \<and> parse_obj L (xs ! i) = None \<longrightarrow> ?q0 ! i = 0"
      by (rule 5)
    show "\<forall>xs i. p = ObjCol xs \<and> i < length xs \<and> parse_obj L (xs ! i) = None \<longrightarrow>
          cells (series_of_numeric ?p0) ! i = FloatV 0" by (rule 6)
  qed
qed

theorem derived_total_price_witness:
  "get_col (rename_columns normalize_name orders_numeric) ''quantity'' = Some (IntCol [3])
   \<and> get_col (rename_columns normalize_name orders_numeric) ''price'' = Some (FloatCol [Some (5 / 2)])
   \<and> get_col (transform_orders_df example_lib orders_numeric) ''quantity'' = Some (IntCol [3])
   \<and> get_col (transform_orders_df example_lib orders_numeric) ''price'' = Some (FloatCol [Some (5 / 2)])
   \<and> get_col (transform_orders_df example_lib orders_numeric) ''total_price'' = Some (FloatCol [Some (15 / 2)])
   \<and> get_col (rename_columns normalize_name orders_raw) ''quantity'' = Some (ObjCol [Some ''3'', Some ''1'', Some ''x''])
   \<and> get_col (rename_columns normalize_name orders_raw) ''price'' = Some (FloatCol [Some (5 / 2), Some 4, Some (5 / 2)])
   \<and> get_col (transform_orders_df example_lib orders_raw) ''quantity'' = Some (IntCol [3, 0])
   \<and> get_col (transform_orders_df example_lib orders_raw) ''price'' = Some (FloatCol [Some (5 / 2), Some (5 / 2)])
   \<and> get_col (transform_orders_df example_lib orders_raw) ''total_price'' = Some (FloatCol [Some (15 / 2), Some 0])"
proof -
  have q: "get_col (rename_columns normalize_name orders_numeric) ''quantity'' = Some (IntCol [3])"
    and p: "get_col (rename_columns normalize_name orders_numeric) ''price'' = Some (FloatCol [Some (5 / 2)])"
    by (simp_all add: eval_defs orders_numeric_def)
  have nk: "get_col (derived_frame example_lib orders_numeric) UNIQUE_KEY = Some (IntCol [1])"
    by (simp add: derived_frame_def eval_defs orders_numeric_def)
  from derived_total_price [OF q p, of example_lib, unfolded series.case]
  obtain qs pn qs0 pn0 where n:
    "get_col (transform_orders_df example_lib orders_numeric) ''quantity'' = Some (IntCol qs)"
    "get_col (transform_orders_df example_lib orders_numeric) ''price'' = Some (series_of_numeric pn)"
    "get_col (transform_orders_df example_lib orders_numeric) ''total_price''
       = Some (series_of_numeric (mul_int_numeric example_lib qs pn))"
    "IntCol qs = keep_keyed example_lib orders_numeric (IntCol qs0)"
    "series_of_numeric pn = keep_keyed example_lib orders_numeric (series_of_numeric pn0)"
    "length qs0 = series_len (IntCol [3])"
    "length (cells (series_of_numeric pn0)) = series_len (FloatCol [Some (5 / 2)])"
    "\<forall>i < series_len (IntCol [3]). qs0 ! i = [3] ! i"
    "\<forall>i < series_len (FloatCol [Some (5 / 2)]).
        cells (series_of_numeric pn0) ! i = (case [Some (5 / 2)] ! i of None \<Rightarrow> FloatV 0 | Some r \<Rightarrow> FloatV r)"
    by (elim exE conjE) (rule that, assumption+)
  from n(6,8) have qs0: "qs0 = [3]"
    by (simp add: series_len_def list_eq_iff_nth_eq)
  from n(7,9) have "cells (series_of_numeric pn0) = [FloatV (5 / 2)]"
    by (simp add: series_len_def list_eq_iff_nth_eq)
  then have pn0: "pn0 = NumFloat [Some (5 / 2)]"
    by (cases pn0) (auto simp: opt_cell_def map_eq_Cons_conv split: option.splits)
  from n(4) qs0 nk have qs: "qs = [3]"
    by (simp add: keep_keyed_def notna_def)
  from n(5) pn0 nk have pn: "pn = NumFloat [Some (5 / 2)]"
    by (cases pn) (simp_all add: keep_keyed_def notna_def)
  from n(1,2,3) qs pn have numeric:
    "get_col (transform_orders_df example_lib orders_numeric) ''quantity'' = Some (IntCol [3])"
    "get_col (transform_orders_df example_lib orders_numeric) ''price'' = Some (FloatCol [Some (5 / 2)])"
    "get_col (transform_orders_df example_lib orders_numeric) ''total_price'' = Some (FloatCol [Some (15 / 2)])"
    by (simp_all add: example_lib_def)
  have q': "get_col (rename_columns normalize_name orders_raw) ''quantity'' = Some (ObjCol [Some ''3'', Some ''1'', Some ''x''])"
    and p': "get_col (rename_columns normalize_name orders_raw) ''price'' = Some (FloatCol [Some (5 / 2), Some 4, Some (5 / 2)])"
    by (simp_all add: eval_defs orders_raw_def)
  have raw: "get_col (transform_orders_df example_lib orders_raw) ''quantity'' = Some (IntCol [3, 0])"
    "get_col (transform_orders_df example_lib orders_raw) ''price'' = Some (FloatCol [Some (5 / 2), Some (5 / 2)])"
    "get_col (transform_orders_df example_lib orders_raw) ''total_price'' = Some (FloatCol [Some (15 / 2), Some 0])"
    by (simp_all add: transform_orders_raw) (simp_all add: orders_clean_def get_col_def)
  from q p numeric q' p' raw show ?thesis by simp
qed

subsection \<open>Merge\<close>







lemma map_fst_update_row: "map fst (update_row U e u) = map fst u"
  by (induction u) (auto simp: update_row_def)








subsection \<open>Merging the same rows again\<close>




subsection \<open>The staging relation depends on the frame only\<close>












subsection \<open>The keys of the staging rows\<close>








subsection \<open>Loading the same frame again\<close>



subsection \<open>Running the pipeline again\<close>




end
